theory Spec2Isabelle
  imports Complex_Main "HOL-Library.Sublist" "HOL-Library.Word"
begin

section \<open>Strings and regular expressions of the host language\<close>

text \<open>
  Strings are lists of code units; \<^typ>\<open>char\<close> covers the code units below 256. The
  patterns of \<^verbatim>\<open>articles.ts\<close> mention ASCII characters only, so a code unit outside
  ASCII is matched by a negated class or by \<^verbatim>\<open>[\s\S]\<close> and by nothing else, except
  the no-break space \<^verbatim>\<open>0xA0\<close>, which is white space for \<^verbatim>\<open>\s\<close> and
  \<^verbatim>\<open>trim()\<close>.
\<close>

definition isWhiteSpace :: "char \<Rightarrow> bool" where
  "isWhiteSpace c =
     (c \<in> set [CHR 0x09, CHR 0x0A, CHR 0x0B, CHR 0x0C, CHR 0x0D, CHR 0x20, CHR 0xA0])"

definition isWordChar :: "char \<Rightarrow> bool" where
  "isWordChar c =
     (c \<in> set (''abcdefghijklmnopqrstuvwxyz'' @ ''ABCDEFGHIJKLMNOPQRSTUVWXYZ'' @
               ''0123456789'' @ ''_''))"

text \<open>
  Canonicalisation under the \<^verbatim>\<open>i\<close> flag maps a character to its upper case. A
  character outside ASCII never canonicalises into ASCII, and the patterns hold ASCII
  only, so such a character is left alone.
\<close>

definition toUpperCase :: "char \<Rightarrow> char" where
  "toUpperCase c =
     (case map_of (zip ''abcdefghijklmnopqrstuvwxyz'' ''ABCDEFGHIJKLMNOPQRSTUVWXYZ'') c of
        Some u \<Rightarrow> u
      | None \<Rightarrow> c)"

definition canonicalize :: "bool \<Rightarrow> char \<Rightarrow> char" where
  "canonicalize ignoreCase c = (if ignoreCase then toUpperCase c else c)"

text \<open>
  The pattern language the source uses: literal text, a class \<^verbatim>\<open>[...]\<close>, a negated
  class \<^verbatim>\<open>[^...]\<close>, \<^verbatim>\<open>[\s\S]\<close>, \<^verbatim>\<open>\s\<close>, \<^verbatim>\<open>\b\<close>, sequence, the greedy
  \<^verbatim>\<open>*\<close>, the lazy \<^verbatim>\<open>*?\<close> and the negative lookahead \<^verbatim>\<open>(?!...)\<close>.
\<close>

datatype re =
    Str string
  | Cls string
  | NCls string
  | AnyChar
  | WhiteSpace
  | WordBoundary
  | Seq re re
  | Star re
  | LazyStar re
  | NotAhead re

text \<open>\<^verbatim>\<open>r+\<close> is \<^verbatim>\<open>rr*\<close>; a pattern of several parts is their sequence.\<close>

definition Plus :: "re \<Rightarrow> re" where
  "Plus r = Seq r (Star r)"

fun seq :: "re list \<Rightarrow> re" where
  "seq [] = Str []"
| "seq [r] = r"
| "seq (r # rs) = Seq r (seq rs)"

text \<open>
  A position of the matcher: the character before it (for \<^verbatim>\<open>\b\<close>) and the input
  that remains.
\<close>

type_synonym pos = "char option \<times> string"

fun prefix_ci :: "bool \<Rightarrow> string \<Rightarrow> pos \<Rightarrow> pos list" where
  "prefix_ci ic [] p = [p]"
| "prefix_ci ic (c # cs) (prev, []) = []"
| "prefix_ci ic (c # cs) (prev, x # xs) =
     (if canonicalize ic x = canonicalize ic c then prefix_ci ic cs (Some x, xs) else [])"

fun one_char :: "(char \<Rightarrow> bool) \<Rightarrow> pos \<Rightarrow> pos list" where
  "one_char ok (prev, []) = []"
| "one_char ok (prev, x # xs) = (if ok x then [(Some x, xs)] else [])"

definition in_class :: "bool \<Rightarrow> string \<Rightarrow> char \<Rightarrow> bool" where
  "in_class ic cs x = (canonicalize ic x \<in> set (map (canonicalize ic) cs))"

definition at_boundary :: "pos \<Rightarrow> bool" where
  "at_boundary p =
     (let a = (case fst p of None \<Rightarrow> False | Some c \<Rightarrow> isWordChar c);
          b = (case snd p of [] \<Rightarrow> False | c # _ \<Rightarrow> isWordChar c)
      in a \<noteq> b)"

text \<open>
  The backtracking matcher. \<open>m ic r p\<close> lists the positions at which a match of \<open>r\<close>
  that starts at \<open>p\<close> can end, in the order in which backtracking tries them: the head
  of the list is the end the engine takes first. An iteration of a star that consumes
  nothing is rejected, as the language's repeat matcher does.
\<close>

function (sequential) m :: "bool \<Rightarrow> re \<Rightarrow> pos \<Rightarrow> pos list" where
  "m ic (Str cs) p = prefix_ci ic cs p"
| "m ic (Cls cs) p = one_char (in_class ic cs) p"
| "m ic (NCls cs) p = one_char (\<lambda>x. \<not> in_class ic cs x) p"
| "m ic AnyChar p = one_char (\<lambda>x. True) p"
| "m ic WhiteSpace p = one_char isWhiteSpace p"
| "m ic WordBoundary p = (if at_boundary p then [p] else [])"
| "m ic (Seq r1 r2) p = concat (map (m ic r2) (m ic r1 p))"
| "m ic (Star r) p =
     concat (map (m ic (Star r)) (filter (\<lambda>q. length (snd q) < length (snd p)) (m ic r p)))
     @ [p]"
| "m ic (LazyStar r) p =
     p # concat (map (m ic (LazyStar r))
                   (filter (\<lambda>q. length (snd q) < length (snd p)) (m ic r p)))"
| "m ic (NotAhead r) p = (if m ic r p = [] then [p] else [])"
  by pat_completeness auto
termination
  by (relation "measures [\<lambda>(ic, r, p). size r, \<lambda>(ic, r, p). length (snd p)]") auto

text \<open>
  \<^verbatim>\<open>str.match(/pre(grp)post/)\<close>: the first start position, from the left, at which the
  pattern matches, and there the first match in backtracking order; the result is the
  text of the capture group, \<open>None\<close> where the source gets \<^verbatim>\<open>null\<close>. Every pattern
  of the source that is used with \<^verbatim>\<open>match\<close> has exactly one group, outside every
  quantifier, so the group takes part in every match.
\<close>

fun exec_group :: "bool \<Rightarrow> re \<Rightarrow> re \<Rightarrow> re \<Rightarrow> pos \<Rightarrow> string option" where
  "exec_group ic pre grp post (prev, s) =
     (case concat (map (\<lambda>p1. concat (map (\<lambda>p2. map (\<lambda>p3. take (length (snd p1) - length (snd p2)) (snd p1))
                                                     (m ic post p2))
                                        (m ic grp p1)))
                       (m ic pre (prev, s))) of
        g # _ \<Rightarrow> Some g
      | [] \<Rightarrow> (case s of [] \<Rightarrow> None | c # cs \<Rightarrow> exec_group ic pre grp post (Some c, cs)))"

text \<open>
  \<^verbatim>\<open>str.replace(/r/g, rep)\<close>: every match, from the left and without overlap, is
  replaced. After an empty match the search moves one character on.
\<close>

function replace_global :: "bool \<Rightarrow> re \<Rightarrow> string \<Rightarrow> pos \<Rightarrow> string" where
  "replace_global ic r rep (prev, s) =
     (case m ic r (prev, s) of
        [] \<Rightarrow> (case s of [] \<Rightarrow> [] | c # cs \<Rightarrow> c # replace_global ic r rep (Some c, cs))
      | q # _ \<Rightarrow>
          (if length (snd q) < length s then rep @ replace_global ic r rep q
           else rep @ (case s of [] \<Rightarrow> []
                       | c # cs \<Rightarrow> c # replace_global ic r rep (Some c, cs))))"
  by pat_completeness auto
termination
  by (relation "measure (\<lambda>(ic, r, rep, p). length (snd p))") auto

definition trim :: "string \<Rightarrow> string" where
  "trim s = rev (dropWhile isWhiteSpace (rev (dropWhile isWhiteSpace s)))"

section \<open>The heuristic extractor\<close>

text \<open>The quote characters of the classes \<^verbatim>\<open>["']\<close> and \<^verbatim>\<open>[^"']\<close>.\<close>

definition quotes :: string where
  "quotes = [CHR 0x22, CHR 0x27]"

text \<open>\<^verbatim>\<open>/<script\b[^<]*(?:(?!<\/script>)<[^<]*)*<\/script>/gi\<close> and the same for \<^verbatim>\<open>style\<close>.\<close>

definition block_re :: "string \<Rightarrow> re" where
  "block_re tag =
     seq [Str (''<'' @ tag), WordBoundary, Star (NCls ''<''),
          Star (seq [NotAhead (Str (''</'' @ tag @ ''>'')), Str ''<'', Star (NCls ''<'')]),
          Str (''</'' @ tag @ ''>'')]"

text \<open>\<^verbatim>\<open>/<title[^>]*>([^<]+)<\/title>/i\<close>\<close>

definition title_pre :: re where
  "title_pre = seq [Str ''<title'', Star (NCls ''>''), Str ''>'']"

definition title_grp :: re where
  "title_grp = Plus (NCls ''<'')"

definition title_post :: re where
  "title_post = Str ''</title>''"

text \<open>\<^verbatim>\<open>/<meta[^>]*property=["']og:title["'][^>]*content=["']([^"']+)["']/i\<close>\<close>

definition meta_pre :: re where
  "meta_pre =
     seq [Str ''<meta'', Star (NCls ''>''), Str ''property='', Cls quotes, Str ''og:title'',
          Cls quotes, Star (NCls ''>''), Str ''content='', Cls quotes]"

definition meta_grp :: re where
  "meta_grp = Plus (NCls quotes)"

definition meta_post :: re where
  "meta_post = Cls quotes"

text \<open>
  The selector list. Each selector is spliced into the pattern text after
  \<^verbatim>\<open>selector.replace(".", "")\<close>, so what is listed here is the pattern that the
  spliced text compiles to: the words are literal text, and \<^verbatim>\<open>[role="main"]\<close>, which
  has no dot to remove, compiles to a character class of the characters between its
  brackets.
\<close>

definition contentSelectors :: "re list" where
  "contentSelectors =
     [Str ''article'',
      Cls (''role='' @ [CHR 0x22] @ ''main'' @ [CHR 0x22]),
      Str ''post-content'',
      Str ''entry-content'',
      Str ''article-content'',
      Str ''content'',
      Str ''main'']"

text \<open>
  \<^verbatim>\<open><[^>]*class=["'][^"']*SELECTOR[^"']*["'][^>]*>([\s\S]*?)<\/[^>]+>\<close> with the
  flag \<^verbatim>\<open>i\<close>.
\<close>

definition selector_pre :: "re \<Rightarrow> re" where
  "selector_pre sel =
     seq [Str ''<'', Star (NCls ''>''), Str ''class='', Cls quotes, Star (NCls quotes), sel,
          Star (NCls quotes), Cls quotes, Star (NCls ''>''), Str ''>'']"

definition selector_grp :: re where
  "selector_grp = LazyStar AnyChar"

definition selector_post :: re where
  "selector_post = seq [Str ''</'', Plus (NCls ''>''), Str ''>'']"

text \<open>
  The loop over the selectors: the first selector whose pattern matches gives the
  content and ends the loop; with no match the content stays empty.
\<close>

fun select_content :: "re list \<Rightarrow> string \<Rightarrow> string" where
  "select_content [] cleanHtml = []"
| "select_content (sel # sels) cleanHtml =
     (case exec_group True (selector_pre sel) selector_grp selector_post (None, cleanHtml) of
        Some g \<Rightarrow> g
      | None \<Rightarrow> select_content sels cleanHtml)"

text \<open>\<^verbatim>\<open>/<body[^>]*>([\s\S]*?)<\/body>/i\<close>\<close>

definition body_pre :: re where
  "body_pre = seq [Str ''<body'', Star (NCls ''>''), Str ''>'']"

definition body_post :: re where
  "body_post = Str ''</body>''"

text \<open>\<^verbatim>\<open>/<[^>]+>/g\<close> and \<^verbatim>\<open>/\s+/g\<close>\<close>

definition tag_re :: re where
  "tag_re = seq [Str ''<'', Plus (NCls ''>''), Str ''>'']"

definition spaces_re :: re where
  "spaces_re = Plus WhiteSpace"

definition remove_blocks :: "string \<Rightarrow> string" where
  "remove_blocks html =
     replace_global True (block_re ''style'') []
       (None, replace_global True (block_re ''script'') [] (None, html))"

definition extract_title :: "string \<Rightarrow> string" where
  "extract_title cleanHtml =
     (let titleMatch = exec_group True title_pre title_grp title_post (None, cleanHtml);
          title = (case titleMatch of Some g \<Rightarrow> trim g | None \<Rightarrow> [])
      in if title = []
         then (case exec_group True meta_pre meta_grp meta_post (None, cleanHtml) of
                 Some g \<Rightarrow> trim g
               | None \<Rightarrow> ''Untitled Article'')
         else title)"

definition extract_content :: "string \<Rightarrow> string" where
  "extract_content cleanHtml =
     (let content = select_content contentSelectors cleanHtml;
          content = (if content = []
                     then (case exec_group True body_pre selector_grp body_post (None, cleanHtml) of
                             Some g \<Rightarrow> g
                           | None \<Rightarrow> cleanHtml)
                     else content)
      in trim (replace_global False spaces_re '' ''
                 (None, replace_global False tag_re '' '' (None, content))))"

text \<open>
  The object \<^verbatim>\<open>{ title, content }\<close> an extractor returns. The heuristic extractor
  fills it with strings, the model-based one with whatever the parsed answer holds.
\<close>

record 'a extracted =
  ex_title :: 'a
  ex_content :: 'a

definition extractWithTraditionalMethods :: "string \<Rightarrow> string extracted" where
  "extractWithTraditionalMethods html =
     (let cleanHtml = remove_blocks html
      in \<lparr>ex_title = extract_title cleanHtml, ex_content = extract_content cleanHtml\<rparr>)"

section \<open>Thrown values, parsed values and the collaborators\<close>

text \<open>
  A thrown value is an \<^verbatim>\<open>Error\<close> with its message, or anything else. Errors raised by
  the engine or by the database library carry a message that is not part of this
  repository; the environment supplies it.
\<close>

datatype thrown = Thrown_Error string | Thrown_Other

datatype lib_error = TypeError | RangeError | PatchMissing | ArgumentInvalid

text \<open>
  A value as \<^verbatim>\<open>JSON.parse\<close> returns it, and \<^verbatim>\<open>undefined\<close> for a property that is
  not there. Numbers are never computed with: the code only asks whether one is zero.
\<close>

datatype jsval =
    JUndefined
  | JNull
  | JBool bool
  | JNumber real
  | JString string
  | JArray "jsval list"
  | JObject "(string \<times> jsval) list"

fun truthy :: "jsval \<Rightarrow> bool" where
  "truthy JUndefined = False"
| "truthy JNull = False"
| "truthy (JBool b) = b"
| "truthy (JNumber n) = (n \<noteq> 0)"
| "truthy (JString s) = (s \<noteq> [])"
| "truthy (JArray xs) = True"
| "truthy (JObject kvs) = True"

text \<open>\<^verbatim>\<open>v || d\<close>\<close>

definition or_else :: "jsval \<Rightarrow> jsval \<Rightarrow> jsval" where
  "or_else v d = (if truthy v then v else d)"

record response =
  ok :: bool
  statusText :: string
  text_body :: "thrown + string"

type_synonym byte = "8 word"

text \<open>
  A provider stream: the chunks it yields, then its end, which is either \<^verbatim>\<open>done\<close>
  (\<open>None\<close>) or a rejected read.
\<close>

type_synonym stream = "byte list list \<times> thrown option"

record env =
  lib_message :: "lib_error \<Rightarrow> string"
  fetch :: "string \<Rightarrow> thrown + response"
  chat :: "string \<Rightarrow> string \<Rightarrow> thrown + string option list"
  json_parse :: "string \<Rightarrow> thrown + jsval"
  apiKey :: "string option"
  convert :: "string \<Rightarrow> thrown + stream"
  store_fault :: "byte list \<Rightarrow> thrown option"

definition lib_throw :: "env \<Rightarrow> lib_error \<Rightarrow> thrown" where
  "lib_throw e k = Thrown_Error (lib_message e k)"

section \<open>The model-based extractor and the coordinator\<close>

text \<open>
  \<^verbatim>\<open>result.title\<close> and \<^verbatim>\<open>result.content\<close>: an own property of an object, a
  \<^verbatim>\<open>TypeError\<close> on \<^verbatim>\<open>null\<close> and \<^verbatim>\<open>undefined\<close>, and \<^verbatim>\<open>undefined\<close> on every
  other value (no boolean, number, string or array has a property of either name).
\<close>

fun get_field :: "env \<Rightarrow> jsval \<Rightarrow> string \<Rightarrow> thrown + jsval" where
  "get_field e (JObject kvs) k =
     Inr (case map_of kvs k of Some v \<Rightarrow> v | None \<Rightarrow> JUndefined)"
| "get_field e JNull k = Inl (lib_throw e TypeError)"
| "get_field e JUndefined k = Inl (lib_throw e TypeError)"
| "get_field e v k = Inr JUndefined"

definition system_prompt :: string where
  "system_prompt =
     ''You are an expert at extracting article content. Extract the main title and the core article text from the provided HTML content. Return a JSON object with 'title' and 'content' fields. The content should be the main article text, cleaned of navigation, ads, and other non-article content.''"

definition user_prompt :: "string \<Rightarrow> string \<Rightarrow> string" where
  "user_prompt url cleanHtml =
     ''Extract the title and main content from this webpage content from URL: '' @ url @
     [CHR 0x0A, CHR 0x0A] @ ''Content: '' @ cleanHtml"

definition ai_clean :: "string \<Rightarrow> string" where
  "ai_clean html =
     take 8000
       (trim (replace_global False spaces_re '' ''
                (None, replace_global False tag_re '' '' (None, remove_blocks html))))"

definition extractWithAI :: "env \<Rightarrow> string \<Rightarrow> string \<Rightarrow> thrown + jsval extracted" where
  "extractWithAI e html url =
     (case chat e system_prompt (user_prompt url (ai_clean html)) of
        Inl x \<Rightarrow> Inl x
      | Inr choices \<Rightarrow>
          (case choices of
             [] \<Rightarrow> Inl (lib_throw e TypeError)
           | message_content # _ \<Rightarrow>
               (case json_parse e
                       (case message_content of
                          None \<Rightarrow> ''{}''
                        | Some c \<Rightarrow> if c = [] then ''{}'' else c) of
                  Inl x \<Rightarrow> Inl x
                | Inr result \<Rightarrow>
                    (case get_field e result ''title'' of
                       Inl x \<Rightarrow> Inl x
                     | Inr t \<Rightarrow>
                         (case get_field e result ''content'' of
                            Inl x \<Rightarrow> Inl x
                          | Inr c \<Rightarrow>
                              Inr \<lparr>ex_title = or_else t (JString ''Untitled Article''),
                                   ex_content = or_else c (JString ''No content extracted'')\<rparr>)))))"

definition as_jsval :: "string extracted \<Rightarrow> jsval extracted" where
  "as_jsval x = \<lparr>ex_title = JString (ex_title x), ex_content = JString (ex_content x)\<rparr>"

definition extractArticleContent :: "env \<Rightarrow> string \<Rightarrow> string \<Rightarrow> thrown + jsval extracted" where
  "extractArticleContent e html url =
     (let traditionalExtraction = extractWithTraditionalMethods html
      in if ex_title traditionalExtraction = [] \<or> length (ex_content traditionalExtraction) < 200
         then extractWithAI e html url
         else Inr (as_jsval traditionalExtraction))"

section \<open>The speech synthesizer\<close>

text \<open>The read loop: every chunk read is pushed onto \<open>chunks\<close> until the stream is done.\<close>

fun read_all :: "stream \<Rightarrow> byte list list \<Rightarrow> thrown + byte list list" where
  "read_all ([], None) chunks = Inr chunks"
| "read_all ([], Some x) chunks = Inl x"
| "read_all (v # vs, fin) chunks = read_all (vs, fin) (chunks @ [v])"

text \<open>
  \<^verbatim>\<open>result.set(chunk, offset)\<close> writes the chunk at the offset and raises a
  \<^verbatim>\<open>RangeError\<close> when it does not fit.
\<close>

definition uint8_set :: "env \<Rightarrow> byte list \<Rightarrow> byte list \<Rightarrow> nat \<Rightarrow> thrown + byte list" where
  "uint8_set e result chunk offset =
     (if length result < offset + length chunk then Inl (lib_throw e RangeError)
      else Inr (take offset result @ chunk @ drop (offset + length chunk) result))"

fun copy_chunks :: "env \<Rightarrow> byte list list \<Rightarrow> byte list \<Rightarrow> nat \<Rightarrow> thrown + byte list" where
  "copy_chunks e [] result offset = Inr result"
| "copy_chunks e (chunk # chunks) result offset =
     (case uint8_set e result chunk offset of
        Inl x \<Rightarrow> Inl x
      | Inr result' \<Rightarrow> copy_chunks e chunks result' (offset + length chunk))"

definition combine :: "env \<Rightarrow> byte list list \<Rightarrow> thrown + byte list" where
  "combine e chunks =
     (let totalLength = foldl (\<lambda>acc chunk. acc + length chunk) 0 chunks
      in copy_chunks e chunks (replicate totalLength 0) 0)"

definition generateAudio :: "env \<Rightarrow> string \<Rightarrow> thrown + byte list" where
  "generateAudio e text =
     (if apiKey e = None \<or> apiKey e = Some []
      then Inl (Thrown_Error ''ElevenLabs API key not configured'')
      else (case convert e text of
              Inl x \<Rightarrow> Inl x
            | Inr audioStream \<Rightarrow>
                (case read_all audioStream [] of
                   Inl x \<Rightarrow> Inl x
                 | Inr chunks \<Rightarrow> combine e chunks)))"

section \<open>The article table and the operations on it\<close>

datatype status = Processing | Completed | Error

record article =
  url :: string
  title :: "string option"
  content :: "string option"
  audioFileId :: "nat option"
  status :: status
  errorMessage :: "string option"

text \<open>
  The state the functions share: the table of articles in the order of their creation,
  the runs the scheduler holds, and the blob store.
\<close>

record state =
  articles :: "(nat \<times> article) list"
  scheduled :: "nat list"
  files :: "(nat \<times> byte list) list"

definition new_id :: "(nat \<times> 'a) list \<Rightarrow> nat" where
  "new_id rows = Suc (fold max (map fst rows) 0)"

definition db_get :: "state \<Rightarrow> nat \<Rightarrow> article option" where
  "db_get st i = map_of (articles st) i"

definition db_insert :: "article \<Rightarrow> state \<Rightarrow> nat \<times> state" where
  "db_insert doc st =
     (let i = new_id (articles st) in (i, st\<lparr>articles := articles st @ [(i, doc)]\<rparr>))"

text \<open>
  \<^verbatim>\<open>ctx.db.patch\<close> merges the given fields into an existing document, a field given as
  \<^verbatim>\<open>undefined\<close> being removed, and throws when the document does not exist.
\<close>

definition patch_rows ::
  "nat \<Rightarrow> (article \<Rightarrow> article) \<Rightarrow> (nat \<times> article) list \<Rightarrow> (nat \<times> article) list" where
  "patch_rows i upd rows = map (\<lambda>(j, a). if j = i then (j, upd a) else (j, a)) rows"

definition db_patch ::
  "env \<Rightarrow> nat \<Rightarrow> (article \<Rightarrow> article) \<Rightarrow> state \<Rightarrow> (thrown + unit) \<times> state" where
  "db_patch e i upd st =
     (case map_of (articles st) i of
        None \<Rightarrow> (Inl (lib_throw e PatchMissing), st)
      | Some _ \<Rightarrow> (Inr (), st\<lparr>articles := patch_rows i upd (articles st)\<rparr>))"

definition runAfter :: "nat \<Rightarrow> state \<Rightarrow> state" where
  "runAfter articleId st = st\<lparr>scheduled := scheduled st @ [articleId]\<rparr>"

definition create :: "string \<Rightarrow> state \<Rightarrow> (thrown + nat) \<times> state" where
  "create u st =
     (case find (\<lambda>(i, a). url a = u) (articles st) of
        Some existing \<Rightarrow> (Inl (Thrown_Error ''Article already exists''), st)
      | None \<Rightarrow>
          (case db_insert \<lparr>url = u, title = None, content = None, audioFileId = None,
                           status = Processing, errorMessage = None\<rparr> st of
             (articleId, st1) \<Rightarrow> (Inr articleId, runAfter articleId st1)))"

definition retry :: "env \<Rightarrow> nat \<Rightarrow> state \<Rightarrow> (thrown + nat) \<times> state" where
  "retry e articleId st =
     (case db_get st articleId of
        None \<Rightarrow> (Inl (Thrown_Error ''Article not found''), st)
      | Some a \<Rightarrow>
          (case db_patch e articleId
                  (\<lambda>a. a\<lparr>status := Processing, errorMessage := None, title := None,
                          content := None, audioFileId := None\<rparr>) st of
             (Inl x, st1) \<Rightarrow> (Inl x, st1)
           | (Inr _, st1) \<Rightarrow> (Inr articleId, runAfter articleId st1)))"

text \<open>The argument validator \<^verbatim>\<open>v.string()\<close> rejects every value that is not a string.\<close>

definition updateArticle ::
  "env \<Rightarrow> nat \<Rightarrow> jsval \<Rightarrow> jsval \<Rightarrow> state \<Rightarrow> (thrown + unit) \<times> state" where
  "updateArticle e articleId t c st =
     (case (t, c) of
        (JString t', JString c') \<Rightarrow>
          db_patch e articleId (\<lambda>a. a\<lparr>title := Some t', content := Some c'\<rparr>) st
      | _ \<Rightarrow> (Inl (lib_throw e ArgumentInvalid), st))"

definition completeArticle :: "env \<Rightarrow> nat \<Rightarrow> nat \<Rightarrow> state \<Rightarrow> (thrown + unit) \<times> state" where
  "completeArticle e articleId fileId st =
     db_patch e articleId (\<lambda>a. a\<lparr>status := Completed, audioFileId := Some fileId\<rparr>) st"

definition markError :: "env \<Rightarrow> nat \<Rightarrow> string \<Rightarrow> state \<Rightarrow> (thrown + unit) \<times> state" where
  "markError e articleId msg st =
     db_patch e articleId (\<lambda>a. a\<lparr>status := Error, errorMessage := Some msg\<rparr>) st"

definition storage_store :: "env \<Rightarrow> byte list \<Rightarrow> state \<Rightarrow> (thrown + nat) \<times> state" where
  "storage_store e blob st =
     (case store_fault e blob of
        Some x \<Rightarrow> (Inl x, st)
      | None \<Rightarrow>
          (let i = new_id (files st) in (Inr i, st\<lparr>files := files st @ [(i, blob)]\<rparr>)))"

section \<open>The processing orchestrator\<close>

text \<open>
  The body of the \<^verbatim>\<open>try\<close> block, cut at the await that follows the write of title and
  content: \<open>begin_run\<close> loads the record, fetches the page, extracts and writes title and
  content; \<open>finish_run\<close> synthesizes, stores the audio and writes the completion.
\<close>

definition begin_run :: "env \<Rightarrow> nat \<Rightarrow> state \<Rightarrow> (thrown + jsval extracted) \<times> state" where
  "begin_run e articleId st =
     (case db_get st articleId of
        None \<Rightarrow> (Inl (Thrown_Error ''Article not found''), st)
      | Some a \<Rightarrow>
          (case fetch e (url a) of
             Inl x \<Rightarrow> (Inl x, st)
           | Inr response \<Rightarrow>
               if \<not> ok response
               then (Inl (Thrown_Error (''Failed to fetch article: '' @ statusText response)), st)
               else (case text_body response of
                       Inl x \<Rightarrow> (Inl x, st)
                     | Inr html \<Rightarrow>
                         (case extractArticleContent e html (url a) of
                            Inl x \<Rightarrow> (Inl x, st)
                          | Inr extractedData \<Rightarrow>
                              (case updateArticle e articleId (ex_title extractedData)
                                      (ex_content extractedData) st of
                                 (Inl x, st1) \<Rightarrow> (Inl x, st1)
                               | (Inr _, st1) \<Rightarrow> (Inr extractedData, st1))))))"

definition finish_run ::
  "env \<Rightarrow> nat \<Rightarrow> jsval extracted \<Rightarrow> state \<Rightarrow> (thrown + unit) \<times> state" where
  "finish_run e articleId extractedData st =
     (case (case ex_content extractedData of
              JString text \<Rightarrow> generateAudio e text
            | _ \<Rightarrow> Inl (lib_throw e ArgumentInvalid)) of
        Inl x \<Rightarrow> (Inl x, st)
      | Inr audioBuffer \<Rightarrow>
          (case storage_store e audioBuffer st of
             (Inl x, st1) \<Rightarrow> (Inl x, st1)
           | (Inr fileId, st1) \<Rightarrow> completeArticle e articleId fileId st1))"

definition try_body :: "env \<Rightarrow> nat \<Rightarrow> state \<Rightarrow> (thrown + unit) \<times> state" where
  "try_body e articleId st =
     (case begin_run e articleId st of
        (Inl x, st1) \<Rightarrow> (Inl x, st1)
      | (Inr extractedData, st1) \<Rightarrow> finish_run e articleId extractedData st1)"

text \<open>\<^verbatim>\<open>error instanceof Error ? error.message : "Unknown error"\<close>\<close>

fun message_of :: "thrown \<Rightarrow> string" where
  "message_of (Thrown_Error msg) = msg"
| "message_of Thrown_Other = ''Unknown error''"

text \<open>
  The \<^verbatim>\<open>catch\<close> clause: what the block threw is written to the record by
  \<open>markError\<close>; what \<open>markError\<close> itself throws leaves the handler.
\<close>

definition catch_run ::
  "env \<Rightarrow> nat \<Rightarrow> (thrown + unit) \<times> state \<Rightarrow> (thrown + unit) \<times> state" where
  "catch_run e articleId r =
     (case r of
        (Inr _, st1) \<Rightarrow> (Inr (), st1)
      | (Inl x, st1) \<Rightarrow> markError e articleId (message_of x) st1)"

definition processArticle :: "env \<Rightarrow> nat \<Rightarrow> state \<Rightarrow> (thrown + unit) \<times> state" where
  "processArticle e articleId st = catch_run e articleId (try_body e articleId st)"

section \<open>The record invariant\<close>

definition article_ok :: "article \<Rightarrow> bool" where
  "article_ok a =
     (status a \<in> {Processing, Completed, Error} \<and>
      (status a = Processing \<longrightarrow> audioFileId a = None) \<and>
      (status a = Completed \<longrightarrow> title a \<noteq> None \<and> content a \<noteq> None \<and> audioFileId a \<noteq> None) \<and>
      (status a = Error \<longrightarrow> errorMessage a \<noteq> None))"

definition invariant :: "state \<Rightarrow> bool" where
  "invariant st = list_all (\<lambda>(i, a). article_ok a) (articles st)"

definition init_state :: state where
  "init_state = \<lparr>articles = [], scheduled = [], files = []\<rparr>"

section \<open>Concrete environments\<close>

text \<open>An environment in which every collaborator fails; the examples below refine it.\<close>

definition quiet_env :: env where
  "quiet_env =
     \<lparr>lib_message = (\<lambda>k. ''library error''),
      fetch = (\<lambda>u. Inl Thrown_Other),
      chat = (\<lambda>s u. Inl Thrown_Other),
      json_parse = (\<lambda>s. Inl Thrown_Other),
      apiKey = None,
      convert = (\<lambda>t. Inl Thrown_Other),
      store_fault = (\<lambda>b. None)\<rparr>"

definition audio_env :: env where
  "audio_env =
     quiet_env\<lparr>apiKey := Some ''key'', convert := (\<lambda>t. Inr ([[1, 2], [], [3]], None))\<rparr>"

text \<open>
  An environment in which everything works: the page is fetched and is empty, the model
  answers with a title and a content, and the synthesizer streams three chunks.
\<close>

definition working_env :: env where
  "working_env =
     quiet_env
       \<lparr>fetch := (\<lambda>u. Inr \<lparr>ok = True, statusText = ''OK'', text_body = Inr []\<rparr>),
        chat := (\<lambda>s u. Inr [Some ''answer'']),
        json_parse :=
          (\<lambda>s. Inr (JObject [(''title'', JString ''Model title''),
                              (''content'', JString ''Model content'')])),
        apiKey := Some ''key'',
        convert := (\<lambda>t. Inr ([[1, 2], [], [3]], None))\<rparr>"

text \<open>An environment whose model answers with a content and no title.\<close>

definition untitled_env :: env where
  "untitled_env =
     quiet_env
       \<lparr>chat := (\<lambda>s u. Inr [Some ''answer'']),
        json_parse := (\<lambda>s. Inr (JObject [(''content'', JString ''Body'')]))\<rparr>"

text \<open>
  Environments whose model answers with the JSON text \<^verbatim>\<open>null\<close>, with a JSON string,
  and with no choice at all.
\<close>

definition null_env :: env where
  "null_env =
     quiet_env
       \<lparr>chat := (\<lambda>s u. Inr [Some ''null'']),
        json_parse := (\<lambda>s. if s = ''null'' then Inr JNull else Inl Thrown_Other)\<rparr>"

definition plain_env :: env where
  "plain_env =
     quiet_env
       \<lparr>chat := (\<lambda>s u. Inr [Some ''answer'']),
        json_parse := (\<lambda>s. Inr (JString ''just text''))\<rparr>"

definition no_choice_env :: env where
  "no_choice_env = quiet_env\<lparr>chat := (\<lambda>s u. Inr [])\<rparr>"

text \<open>An environment whose page fetch answers 404.\<close>

definition not_found_env :: env where
  "not_found_env =
     quiet_env\<lparr>fetch := (\<lambda>u. Inr \<lparr>ok = False, statusText = ''Not Found'', text_body = Inr []\<rparr>)\<rparr>"

text \<open>What the model-based extractor returns in \<open>working_env\<close>.\<close>

definition model_answer :: "jsval extracted" where
  "model_answer = \<lparr>ex_title = JString ''Model title'', ex_content = JString ''Model content''\<rparr>"

text \<open>The record of an article that has just been submitted, or retried.\<close>

definition fresh_article :: "string \<Rightarrow> article" where
  "fresh_article u =
     \<lparr>url = u, title = None, content = None, audioFileId = None, status = Processing,
      errorMessage = None\<rparr>"

text \<open>
  The states of a run that a retry overtakes: after the submission, after the run's write
  of title and content, after the retry, and after the run's completion write.
\<close>

definition race_s0 :: state where
  "race_s0 = \<lparr>articles = [(1, fresh_article ''u'')], scheduled = [1], files = []\<rparr>"

definition race_s1 :: state where
  "race_s1 =
     \<lparr>articles = [(1, (fresh_article ''u'')\<lparr>title := Some ''Model title'',
                                             content := Some ''Model content''\<rparr>)],
      scheduled = [1], files = []\<rparr>"

definition race_s2 :: state where
  "race_s2 = \<lparr>articles = [(1, fresh_article ''u'')], scheduled = [1, 1], files = []\<rparr>"

definition race_s3 :: state where
  "race_s3 =
     \<lparr>articles = [(1, (fresh_article ''u'')\<lparr>audioFileId := Some 1, status := Completed\<rparr>)],
      scheduled = [1, 1], files = [(1, [1, 2, 3])]\<rparr>"

text \<open>Markup of a title element and an article element with 200 characters of text.\<close>

definition bare_article :: string where
  "bare_article = ''<title>Foo</title><article>'' @ replicate 200 (CHR ''a'') @ ''</article>''"

text \<open>
  Markup whose only title is an Open Graph title of one space, followed by 200
  characters of text.
\<close>

definition blank_og_title :: string where
  "blank_og_title = ''<meta property='og:title' content=' '>'' @ replicate 200 (CHR ''a'')"

text \<open>
  Whether the text \<^verbatim>\<open>class=\<close>, in any case of its letters, stands anywhere in the
  markup.
\<close>

definition has_class_attr :: "string \<Rightarrow> bool" where
  "has_class_attr s = list_ex (\<lambda>t. prefix_ci True ''class='' (None, t) \<noteq> []) (suffixes s)"

text \<open>The character before a position that lies behind the text \<open>cs\<close>.\<close>

fun last_of :: "char option \<Rightarrow> string \<Rightarrow> char option" where
  "last_of prev [] = prev"
| "last_of prev (c # cs) = last_of (Some c) cs"

section \<open>Evaluating the matcher\<close>

text \<open>
  The equations of the two stars are taken out of the simplifier's rules; for a star
  over a single character the equations below do without the length test.
\<close>

declare m.simps(8,9) [simp del]

lemma toUpperCase_Char:
  "toUpperCase (Char b0 b1 b2 b3 b4 b5 b6 b7) =
     (if b5 \<and> b6 \<and> \<not> b7 \<and> (b0 \<or> b1 \<or> b2 \<or> b3 \<or> b4) \<and> \<not> (b4 \<and> b3 \<and> (b2 \<or> (b1 \<and> b0)))
      then Char b0 b1 b2 b3 b4 False b6 b7 else Char b0 b1 b2 b3 b4 b5 b6 b7)"
  by (cases b0; cases b1; cases b2; cases b3; cases b4; cases b5; cases b6; cases b7;
      simp add: toUpperCase_def)

lemma star_one_char:
  assumes "\<And>p. m ic r p = one_char accept p"
  shows "m ic (Star r) (prev, []) = [(prev, [])]"
    and "m ic (Star r) (prev, x # xs) =
           (if accept x then m ic (Star r) (Some x, xs) @ [(prev, x # xs)] else [(prev, x # xs)])"
  by (simp_all add: assms m.simps(8))

lemma lazy_one_char:
  assumes "\<And>p. m ic r p = one_char accept p"
  shows "m ic (LazyStar r) (prev, []) = [(prev, [])]"
    and "m ic (LazyStar r) (prev, x # xs) =
           (prev, x # xs) # (if accept x then m ic (LazyStar r) (Some x, xs) else [])"
  by (simp_all add: assms m.simps(9))

lemmas star_NCls =
  star_one_char [of ic "NCls cs" "\<lambda>x. \<not> in_class ic cs x", OF m.simps(3)] for ic cs

lemmas star_Cls = star_one_char [of ic "Cls cs" "in_class ic cs", OF m.simps(2)] for ic cs

lemmas star_WhiteSpace = star_one_char [of ic "WhiteSpace" "isWhiteSpace", OF m.simps(5)] for ic

lemmas lazy_AnyChar = lazy_one_char [of ic "AnyChar" "\<lambda>x. True", OF m.simps(4)] for ic

lemmas regex_eval =
  canonicalize_def toUpperCase_Char isWhiteSpace_def in_class_def
  star_NCls star_Cls star_WhiteSpace lazy_AnyChar Plus_def quotes_def

lemmas pattern_defs =
  title_pre_def title_grp_def title_post_def meta_pre_def meta_grp_def meta_post_def
  selector_pre_def selector_grp_def selector_post_def body_pre_def body_post_def
  tag_re_def spaces_re_def block_re_def

lemma exec_group_Nil:
  "exec_group ic pre grp post (prev, []) =
     (case concat (map (\<lambda>p1. concat (map (\<lambda>p2. map (\<lambda>p3. take (length (snd p1) - length (snd p2)) (snd p1))
                                                     (m ic post p2))
                                        (m ic grp p1)))
                       (m ic pre (prev, []))) of
        g # _ \<Rightarrow> Some g
      | [] \<Rightarrow> None)"
  by (subst exec_group.simps) (simp only: list.case cong: list.case_cong)

lemma exec_group_Cons:
  "exec_group ic pre grp post (prev, c # cs) =
     (case concat (map (\<lambda>p1. concat (map (\<lambda>p2. map (\<lambda>p3. take (length (snd p1) - length (snd p2)) (snd p1))
                                                     (m ic post p2))
                                        (m ic grp p1)))
                       (m ic pre (prev, c # cs))) of
        g # _ \<Rightarrow> Some g
      | [] \<Rightarrow> exec_group ic pre grp post (Some c, cs))"
  by (subst exec_group.simps) (simp only: list.case cong: list.case_cong)

lemma replace_global_Nil:
  "replace_global ic r rep (prev, []) = (case m ic r (prev, []) of [] \<Rightarrow> [] | q # _ \<Rightarrow> rep)"
  by (subst replace_global.simps) (simp del: replace_global.simps m.simps split: list.splits)

lemma replace_global_Cons:
  "replace_global ic r rep (prev, c # cs) =
     (case m ic r (prev, c # cs) of
        [] \<Rightarrow> c # replace_global ic r rep (Some c, cs)
      | q # _ \<Rightarrow>
          (if length (snd q) < Suc (length cs) then rep @ replace_global ic r rep q
           else rep @ c # replace_global ic r rep (Some c, cs)))"
  by (subst replace_global.simps) (simp del: replace_global.simps m.simps split: list.splits)

lemma exec_group_skip:
  assumes "\<And>c prev s. c \<in> set body \<Longrightarrow> m ic pre (prev, c # s) = []"
  shows "exec_group ic pre grp post (prev, body @ rest) =
         exec_group ic pre grp post (last_of prev body, rest)"
  using assms by (induction body arbitrary: prev) (simp_all add: exec_group_Cons)

lemma replace_global_skip:
  assumes "\<And>c prev s. c \<in> set body \<Longrightarrow> m ic r (prev, c # s) = []"
  shows "replace_global ic r rep (prev, body @ rest) =
         body @ replace_global ic r rep (last_of prev body, rest)"
  using assms by (induction body arbitrary: prev) (simp_all add: replace_global_Cons)

declare exec_group.simps [simp del] replace_global.simps [simp del]

lemmas search_eval = exec_group_Nil exec_group_Cons replace_global_Nil replace_global_Cons

text \<open>No pattern that begins with \<^verbatim>\<open><\<close> matches at another character.\<close>

lemma toUpperCase_lt [simp]: "toUpperCase c = CHR ''<'' \<longleftrightarrow> c = CHR ''<''"
  by (cases c) (auto simp: toUpperCase_Char)

lemma canonicalize_lt [simp]:
  "canonicalize ic c = canonicalize ic (CHR ''<'') \<longleftrightarrow> c = CHR ''<''"
  by (simp add: canonicalize_def toUpperCase_Char)

lemma exec_group_skip_lt:
  assumes "\<And>c. c \<in> set body \<Longrightarrow> c \<noteq> CHR ''<''"
  shows "exec_group ic (Seq (Str (CHR ''<'' # cs)) r) grp post (prev, body @ rest) =
         exec_group ic (Seq (Str (CHR ''<'' # cs)) r) grp post (last_of prev body, rest)"
  by (rule exec_group_skip) (simp add: assms)

lemma replace_global_skip_lt:
  assumes "\<And>c. c \<in> set body \<Longrightarrow> c \<noteq> CHR ''<''"
  shows "replace_global ic (Seq (Str (CHR ''<'' # cs)) r) rep (prev, body @ rest) =
         body @ replace_global ic (Seq (Str (CHR ''<'' # cs)) r) rep (last_of prev body, rest)"
  by (rule replace_global_skip) (simp add: assms)

lemma star_WhiteSpace_stop:
  assumes "body \<noteq> []" and "\<not> isWhiteSpace (hd body)"
  shows "m ic (Star WhiteSpace) (prev, body @ rest) = [(prev, body @ rest)]"
  using assms by (cases body) (simp_all add: star_WhiteSpace)

lemma replace_spaces_skip:
  assumes "\<And>c. c \<in> set body \<Longrightarrow> \<not> isWhiteSpace c"
  shows "replace_global ic spaces_re rep (prev, body @ rest) =
         body @ replace_global ic spaces_re rep (last_of prev body, rest)"
  by (rule replace_global_skip) (simp add: spaces_re_def Plus_def assms)

lemma trim_strip:
  assumes "\<And>c. c \<in> set l \<Longrightarrow> isWhiteSpace c" and "\<And>c. c \<in> set r \<Longrightarrow> isWhiteSpace c"
    and "xs \<noteq> []" and "\<not> isWhiteSpace (hd xs)" and "\<not> isWhiteSpace (last xs)"
  shows "trim (l @ xs @ r) = xs"
proof -
  have front: "dropWhile isWhiteSpace (l @ xs @ r) = xs @ r"
    using assms(1,3,4) by (cases xs) (simp_all add: dropWhile_append2)
  have "dropWhile isWhiteSpace (rev r @ rev xs) = dropWhile isWhiteSpace (rev xs)"
    by (rule dropWhile_append2) (use assms(2) in simp)
  also have "\<dots> = rev xs"
    using assms(3,5) by (cases xs rule: rev_cases) simp_all
  finally show ?thesis
    by (simp add: trim_def front)
qed

section \<open>The heuristic extractor on a title element and an article element\<close>

text \<open>
  The markup is a title element and an article element whose text \<open>body\<close> has no
  \<^verbatim>\<open><\<close> and no white space. No pattern of the selector list matches, since each asks
  for a \<^verbatim>\<open>class\<close> attribute; there is no body element either, so the content is taken
  from the whole markup and begins with the text of the title.
\<close>

lemma bare_article_parts:
  assumes nolt: "\<And>c. c \<in> set body \<Longrightarrow> c \<noteq> CHR ''<''"
    and nows: "\<And>c. c \<in> set body \<Longrightarrow> \<not> isWhiteSpace c"
    and ne: "body \<noteq> []"
    and inp: "inp = ''<title>Foo</title><article>'' @ body @ ''</article>''"
  shows "remove_blocks inp = inp"
    and "select_content contentSelectors inp = []"
    and "exec_group True body_pre selector_grp body_post (None, inp) = None"
    and "extractWithTraditionalMethods inp = \<lparr>ex_title = ''Foo'', ex_content = ''Foo '' @ body\<rparr>"
proof -
  note skip = exec_group_skip_lt [OF nolt] replace_global_skip_lt [OF nolt]
  show clean: "remove_blocks inp = inp"
    unfolding inp by (simp add: remove_blocks_def skip search_eval regex_eval block_re_def)
  have t: "extract_title inp = ''Foo''"
    unfolding inp by (simp add: extract_title_def search_eval regex_eval pattern_defs trim_def)
  show sel: "select_content contentSelectors inp = []"
    unfolding inp by (simp add: contentSelectors_def skip search_eval regex_eval pattern_defs)
  show bd: "exec_group True body_pre selector_grp body_post (None, inp) = None"
    unfolding inp by (simp add: skip search_eval regex_eval pattern_defs)
  have tags: "replace_global False tag_re '' '' (None, inp) = '' Foo  '' @ body @ '' ''"
    unfolding inp by (simp add: skip search_eval regex_eval pattern_defs)
  have hd_ok: "\<not> isWhiteSpace (hd body)" and last_ok: "\<not> isWhiteSpace (last body)"
    using ne nows by simp_all
  have spaces: "replace_global False spaces_re '' '' (None, '' Foo  '' @ body @ '' '') =
                '' Foo '' @ body @ '' ''"
    using star_WhiteSpace_stop [OF ne hd_ok] replace_spaces_skip [OF nows]
    by (simp add: search_eval regex_eval spaces_re_def)
  have trimmed: "trim ('' '' @ (''Foo '' @ body) @ '' '') = ''Foo '' @ body"
    by (rule trim_strip) (use ne last_ok in \<open>simp_all add: isWhiteSpace_def\<close>)
  show "extractWithTraditionalMethods inp = \<lparr>ex_title = ''Foo'', ex_content = ''Foo '' @ body\<rparr>"
    using trimmed spaces
    by (simp add: extractWithTraditionalMethods_def clean t extract_content_def sel bd tags)
qed

text \<open>
  The same holds for every markup: each pattern of the selector list asks for the text
  \<^verbatim>\<open>class=\<close> inside a tag, so on markup without it no selector matches, whatever
  elements the markup has, and the content comes from the body element or from the
  whole markup.
\<close>

lemma prefix_ci_suffix: "q \<in> set (prefix_ci ic cs p) \<Longrightarrow> suffix (snd q) (snd p)"
proof (induction ic cs p rule: prefix_ci.induct)
  case (3 ic c cs prev x xs)
  then show ?case
    by (auto split: if_splits intro: suffix_ConsI)
qed simp_all

lemma one_char_suffix: "q \<in> set (one_char accept p) \<Longrightarrow> suffix (snd q) (snd p)"
  by (cases p; cases "snd p") (auto split: if_splits intro: suffix_ConsI)

lemma m_suffix: "q \<in> set (m ic r p) \<Longrightarrow> suffix (snd q) (snd p)"
proof (induction ic r p arbitrary: q rule: m.induct)
  case (7 ic r1 r2 p)
  from "7.prems" obtain p1 where p1: "p1 \<in> set (m ic r1 p)" "q \<in> set (m ic r2 p1)"
    by auto
  have "suffix (snd p1) (snd p)" using "7.IH"(1) p1(1) .
  moreover have "suffix (snd q) (snd p1)" using "7.IH"(2) p1 .
  ultimately show ?case by (rule suffix_order.trans [rotated])
next
  case (8 ic r p)
  from "8.prems" consider "q = p"
    | p1 where "p1 \<in> set (filter (\<lambda>q. length (snd q) < length (snd p)) (m ic r p))"
        "q \<in> set (m ic (Star r) p1)"
    by (subst (asm) m.simps(8)) auto
  then show ?case
  proof cases
    case 1
    then show ?thesis by simp
  next
    case 2
    have "suffix (snd p1) (snd p)" using "8.IH"(1) 2(1) by simp
    moreover have "suffix (snd q) (snd p1)" using "8.IH"(2) 2 .
    ultimately show ?thesis by (rule suffix_order.trans [rotated])
  qed
next
  case (9 ic r p)
  from "9.prems" consider "q = p"
    | p1 where "p1 \<in> set (filter (\<lambda>q. length (snd q) < length (snd p)) (m ic r p))"
        "q \<in> set (m ic (LazyStar r) p1)"
    by (subst (asm) m.simps(9)) auto
  then show ?case
  proof cases
    case 1
    then show ?thesis by simp
  next
    case 2
    have "suffix (snd p1) (snd p)" using "9.IH"(1) 2(1) by simp
    moreover have "suffix (snd q) (snd p1)" using "9.IH"(2) 2 .
    ultimately show ?thesis by (rule suffix_order.trans [rotated])
  qed
qed (auto dest: prefix_ci_suffix one_char_suffix split: if_splits)

lemma prefix_ci_prev:
  "prefix_ci ic cs (prev, s) = [] \<longleftrightarrow> prefix_ci ic cs (prev', s) = []"
  by (cases cs; cases s) simp_all

lemma no_class_no_selector:
  assumes "\<not> has_class_attr s" and "suffix t s"
  shows "m True (selector_pre sel) (prev, t) = []"
proof -
  have none: "prefix_ci True ''class='' p2 = []" if "suffix (snd p2) s" for p2
  proof -
    have "snd p2 \<in> set (suffixes s)" using that by (simp add: in_set_suffixes)
    then have "prefix_ci True ''class='' (None, snd p2) = []"
      using assms(1) by (auto simp: has_class_attr_def list_ex_iff)
    then show ?thesis
      using prefix_ci_prev [of True "''class=''" "fst p2" "snd p2" None] by simp
  qed
  have cls: "m True (Seq (Str ''class='') r) p2 = []" if "suffix (snd p2) s" for p2 r
    using none [OF that] by simp
  have inner: "m True (Seq (Star (NCls ''>'')) (Seq (Str ''class='') r)) p1 = []"
    if "suffix (snd p1) s" for p1 r
  proof -
    have "m True (Seq (Str ''class='') r) p2 = []"
      if "p2 \<in> set (m True (Star (NCls ''>'')) p1)" for p2
    proof (rule cls)
      have "suffix (snd p2) (snd p1)" using that by (rule m_suffix)
      then show "suffix (snd p2) s" using \<open>suffix (snd p1) s\<close> by (rule suffix_order.trans)
    qed
    then have "concat (map (m True (Seq (Str ''class='') r)) (m True (Star (NCls ''>'')) p1)) = []"
      by (simp only: concat_eq_Nil_conv set_map) blast
    then show ?thesis
      by (simp only: m.simps(7))
  qed
  have outer: "m True (Seq (Str ''<'') (Seq (Star (NCls ''>'')) (Seq (Str ''class='') r)))
                 (prev, t) = []" for r
  proof -
    have "m True (Seq (Star (NCls ''>'')) (Seq (Str ''class='') r)) p1 = []"
      if "p1 \<in> set (m True (Str ''<'') (prev, t))" for p1
    proof (rule inner)
      have "suffix (snd p1) (snd (prev, t))" using that by (rule m_suffix)
      then show "suffix (snd p1) s" using assms(2) by (simp add: suffix_order.trans)
    qed
    then have "concat (map (m True (Seq (Star (NCls ''>'')) (Seq (Str ''class='') r)))
                 (m True (Str ''<'') (prev, t))) = []"
      by (simp only: concat_eq_Nil_conv set_map) blast
    then show ?thesis
      by (simp only: m.simps(7))
  qed
  show ?thesis
    unfolding selector_pre_def seq.simps by (rule outer)
qed

lemma no_class_no_match:
  assumes "\<not> has_class_attr s" and "suffix t s"
  shows "exec_group True (selector_pre sel) grp post (prev, t) = None"
  using assms(2)
proof (induction t arbitrary: prev)
  case Nil
  have "m True (selector_pre sel) (prev, []) = []"
    by (rule no_class_no_selector [OF assms(1) Nil.prems])
  then show ?case
    by (simp only: exec_group_Nil list.map concat.simps list.case)
next
  case (Cons c cs)
  have "suffix cs s" using Cons.prems by (rule suffix_ConsD)
  then have rest: "exec_group True (selector_pre sel) grp post (Some c, cs) = None"
    by (rule Cons.IH)
  have "m True (selector_pre sel) (prev, c # cs) = []"
    by (rule no_class_no_selector [OF assms(1) Cons.prems])
  then show ?case
    by (simp only: exec_group_Cons list.map concat.simps list.case rest)
qed

lemma no_class_select_content:
  "\<not> has_class_attr s \<Longrightarrow> select_content sels s = []"
  by (induction sels) (simp_all add: no_class_no_match)

lemma selectors_need_class_attribute:
  assumes "\<not> has_class_attr (remove_blocks html)"
  shows "select_content contentSelectors (remove_blocks html) = [] \<and>
         ex_content (extractWithTraditionalMethods html) =
           trim (replace_global False spaces_re '' ''
             (None, replace_global False tag_re '' ''
                (None, case exec_group True body_pre selector_grp body_post
                              (None, remove_blocks html) of
                         Some g \<Rightarrow> g
                       | None \<Rightarrow> remove_blocks html)))"
  by (simp add: extractWithTraditionalMethods_def extract_content_def Let_def
      no_class_select_content [OF assms])

lemma selectors_need_class_attribute_example:
  "\<not> has_class_attr (remove_blocks ''<article>x</article>'') \<and>
   select_content contentSelectors (remove_blocks ''<article>x</article>'') = [] \<and>
   ex_content (extractWithTraditionalMethods ''<article>x</article>'') = ''x''"
proof -
  have clean: "remove_blocks ''<article>x</article>'' = ''<article>x</article>''"
    by (simp add: remove_blocks_def search_eval regex_eval block_re_def)
  have none: "\<not> has_class_attr ''<article>x</article>''"
    by (simp add: has_class_attr_def regex_eval)
  have bd: "exec_group True body_pre selector_grp body_post (None, ''<article>x</article>'') =
            None"
    by (simp add: search_eval regex_eval pattern_defs)
  have strip: "trim (replace_global False spaces_re '' ''
             (None, replace_global False tag_re '' '' (None, ''<article>x</article>''))) = ''x''"
    by (simp add: trim_def search_eval regex_eval pattern_defs)
  show ?thesis
    using selectors_need_class_attribute [of "''<article>x</article>''"] none
    by (simp add: clean bd strip)
qed

text \<open>
  C1. On the markup \<open>bare_article\<close> (a title element \<open>Foo\<close> and an article element with
  200 characters of text) the heuristic extractor returns the title \<open>Foo\<close>, and the
  coordinator returns the heuristic result without calling the model-based extractor.
  The content, however, is not the text of the article element: no selector matches,
  and the content is the text of the whole markup, \<open>Foo\<close> and a space before the 200
  characters.
\<close>

theorem bare_article_extraction:
  "extractWithTraditionalMethods bare_article =
     \<lparr>ex_title = ''Foo'', ex_content = ''Foo '' @ replicate 200 (CHR ''a'')\<rparr> \<and>
   select_content contentSelectors (remove_blocks bare_article) = [] \<and>
   extractArticleContent e bare_article u =
     Inr \<lparr>ex_title = JString ''Foo'', ex_content = JString (''Foo '' @ replicate 200 (CHR ''a''))\<rparr>"
proof -
  have parts:
    "remove_blocks bare_article = bare_article"
    "select_content contentSelectors bare_article = []"
    "extractWithTraditionalMethods bare_article =
       \<lparr>ex_title = ''Foo'', ex_content = ''Foo '' @ replicate 200 (CHR ''a'')\<rparr>"
    by (rule bare_article_parts [where body = "replicate 200 (CHR ''a'')"];
        simp add: isWhiteSpace_def bare_article_def)+
  show ?thesis
    by (simp add: parts extractArticleContent_def as_jsval_def)
qed

section \<open>The title of the heuristic extractor\<close>

lemma trim_blank: "trim s = [] \<longleftrightarrow> list_all isWhiteSpace s"
proof
  assume "trim s = []"
  then have "dropWhile isWhiteSpace (rev (dropWhile isWhiteSpace s)) = []"
    by (simp add: trim_def)
  then have "\<forall>c\<in>set (dropWhile isWhiteSpace s). isWhiteSpace c"
    by (simp add: dropWhile_eq_Nil_conv)
  then have "dropWhile isWhiteSpace s = []"
    by (metis hd_dropWhile list.set_sel(1))
  then show "list_all isWhiteSpace s"
    by (simp add: dropWhile_eq_Nil_conv list_all_iff)
next
  assume "list_all isWhiteSpace s"
  then have d: "dropWhile isWhiteSpace s = []"
    by (simp add: dropWhile_eq_Nil_conv list_all_iff)
  show "trim s = []"
    unfolding trim_def d by simp
qed

lemma blank_og_title_parts:
  assumes nolt: "\<And>c. c \<in> set body \<Longrightarrow> c \<noteq> CHR ''<''"
    and nows: "\<And>c. c \<in> set body \<Longrightarrow> \<not> isWhiteSpace c"
    and ne: "body \<noteq> []"
    and inp: "inp = ''<meta property='og:title' content=' '>'' @ body"
  shows "extractWithTraditionalMethods inp = \<lparr>ex_title = [], ex_content = body\<rparr>"
proof -
  note skip = exec_group_skip_lt [OF nolt, where rest = "[]", simplified]
    replace_global_skip_lt [OF nolt, where rest = "[]", simplified]
  have clean: "remove_blocks inp = inp"
    unfolding inp by (simp add: remove_blocks_def skip search_eval regex_eval block_re_def)
  have t: "exec_group True title_pre title_grp title_post (None, inp) = None"
    unfolding inp by (simp add: skip search_eval regex_eval pattern_defs)
  have og: "exec_group True meta_pre meta_grp meta_post (None, inp) = Some '' ''"
    unfolding inp by (simp add: search_eval regex_eval pattern_defs)
  have sel: "select_content contentSelectors inp = []"
    unfolding inp by (simp add: contentSelectors_def skip search_eval regex_eval pattern_defs)
  have bd: "exec_group True body_pre selector_grp body_post (None, inp) = None"
    unfolding inp by (simp add: skip search_eval regex_eval pattern_defs)
  have tags: "replace_global False tag_re '' '' (None, inp) = '' '' @ body"
    unfolding inp by (simp add: skip search_eval regex_eval pattern_defs)
  have hd_ok: "\<not> isWhiteSpace (hd body)" and last_ok: "\<not> isWhiteSpace (last body)"
    using ne nows by simp_all
  have spaces: "replace_global False spaces_re '' '' (None, '' '' @ body) = '' '' @ body"
    using star_WhiteSpace_stop [OF ne hd_ok, where rest = "[]"]
      replace_spaces_skip [OF nows, where rest = "[]"]
    by (simp add: search_eval regex_eval spaces_re_def)
  have trimmed: "trim ('' '' @ body @ []) = body"
    by (rule trim_strip) (use ne hd_ok last_ok in \<open>simp_all add: isWhiteSpace_def\<close>)
  show ?thesis
    using trimmed spaces
    by (simp add: extractWithTraditionalMethods_def clean extract_title_def t og trim_def
        extract_content_def sel bd tags isWhiteSpace_def)
qed

text \<open>
  C10, as amended. The title of the heuristic extractor is empty exactly when the title
  pattern yields no text (no match, or a match of white space only) and the
  \<^verbatim>\<open>og:title\<close> pattern matches with a content of white space only; the coordinator's
  gate is then triggered by the empty title. When the title pattern yields no text and
  the \<^verbatim>\<open>og:title\<close> pattern does not match, the title is \<open>Untitled Article\<close>.
\<close>

theorem heuristic_title_cases:
  "(ex_title (extractWithTraditionalMethods html) = [] \<longleftrightarrow>
      (case exec_group True title_pre title_grp title_post (None, remove_blocks html) of
         None \<Rightarrow> True
       | Some g \<Rightarrow> list_all isWhiteSpace g) \<and>
      (case exec_group True meta_pre meta_grp meta_post (None, remove_blocks html) of
         None \<Rightarrow> False
       | Some g \<Rightarrow> list_all isWhiteSpace g)) \<and>
   ((case exec_group True title_pre title_grp title_post (None, remove_blocks html) of
       None \<Rightarrow> True
     | Some g \<Rightarrow> list_all isWhiteSpace g) \<and>
    exec_group True meta_pre meta_grp meta_post (None, remove_blocks html) = None \<longrightarrow>
    ex_title (extractWithTraditionalMethods html) = ''Untitled Article'')"
  by (simp add: extractWithTraditionalMethods_def extract_title_def Let_def trim_blank
      split: option.splits)

theorem heuristic_title_cases_witness:
  "exec_group True title_pre title_grp title_post (None, remove_blocks []) = None \<and>
   exec_group True meta_pre meta_grp meta_post (None, remove_blocks []) = None \<and>
   ex_title (extractWithTraditionalMethods []) = ''Untitled Article''"
  using heuristic_title_cases [of "[]"]
  by (simp add: remove_blocks_def search_eval regex_eval pattern_defs)

text \<open>
  The claim C10 as it is written fails on \<open>blank_og_title\<close>: the \<^verbatim>\<open>og:title\<close> content
  is one space, which \<^verbatim>\<open>trim\<close> empties, so the heuristic title is empty. The content
  has 200 characters, so it is the empty title alone that sends the coordinator to the
  model-based extractor.
\<close>

theorem blank_og_title_empty_title:
  "ex_title (extractWithTraditionalMethods blank_og_title) = [] \<and>
   length (ex_content (extractWithTraditionalMethods blank_og_title)) = 200 \<and>
   extractArticleContent working_env blank_og_title ''u'' = Inr model_answer"
proof -
  have h: "extractWithTraditionalMethods blank_og_title =
           \<lparr>ex_title = [], ex_content = replicate 200 (CHR ''a'')\<rparr>"
    by (rule blank_og_title_parts [where body = "replicate 200 (CHR ''a'')"];
        simp add: isWhiteSpace_def blank_og_title_def)
  have "extractWithAI working_env blank_og_title ''u'' = Inr model_answer"
    by (simp add: extractWithAI_def working_env_def quiet_env_def or_else_def model_answer_def)
  then show ?thesis
    by (simp add: h extractArticleContent_def)
qed

section \<open>The speech synthesizer concatenates the chunks\<close>

lemma read_all_done: "read_all (vs, None) acc = Inr (acc @ vs)"
  by (induction vs arbitrary: acc) simp_all

lemma total_length:
  "foldl (\<lambda>acc chunk. acc + length chunk) n chunks = n + length (concat chunks)"
  by (induction chunks arbitrary: n) simp_all

text \<open>
  The copy loop, started with the offset at the end of what is already written and with
  exactly as much room left as the chunks need, writes the chunks one after the other.
\<close>

lemma copy_chunks_fill:
  "length rest = length (concat chunks) \<Longrightarrow>
   copy_chunks e chunks (pre @ rest) (length pre) = Inr (pre @ concat chunks)"
proof (induction chunks arbitrary: pre rest)
  case Nil
  then show ?case by simp
next
  case (Cons c cs)
  have fits: "\<not> length (pre @ rest) < length pre + length c"
    using Cons.prems by simp
  have len: "length (drop (length c) rest) = length (concat cs)"
    using Cons.prems by simp
  have step: "uint8_set e (pre @ rest) c (length pre) = Inr ((pre @ c) @ drop (length c) rest)"
    using fits by (simp add: uint8_set_def)
  show ?case
    using Cons.IH [OF len, of "pre @ c"] step by simp
qed

lemma combine_concat: "combine e chunks = Inr (concat chunks)"
  using copy_chunks_fill [of "replicate (length (concat chunks)) 0" chunks e "[]"]
  by (simp add: combine_def total_length)

text \<open>
  C8. With a configured key, when the provider's stream yields the chunks \<open>chunks\<close> and
  then ends, the buffer the synthesizer returns is the concatenation of the chunks in
  the order of their arrival: nothing is added, dropped or reordered.
\<close>

theorem generateAudio_concat:
  assumes "apiKey e = Some k" and "k \<noteq> []" and "convert e txt = Inr (chunks, None)"
  shows "generateAudio e txt = Inr (concat chunks)"
  using assms by (simp add: generateAudio_def read_all_done combine_concat)

theorem generateAudio_concat_witness:
  "generateAudio audio_env ''hello'' = Inr [1, 2, 3]"
  using generateAudio_concat [of audio_env "''key''" "''hello''" "[[1, 2], [], [3]]"]
  by (simp add: audio_env_def quiet_env_def)

section \<open>The coordinator's quality gate\<close>

text \<open>
  C2. For every markup and URL the coordinator returns the heuristic extractor's result
  when its title is not empty and its content has at least 200 characters, and the
  model-based extractor's result otherwise.
\<close>

theorem coordinator_gate:
  "extractArticleContent e html u =
     (if ex_title (extractWithTraditionalMethods html) \<noteq> [] \<and>
         200 \<le> length (ex_content (extractWithTraditionalMethods html))
      then Inr (as_jsval (extractWithTraditionalMethods html))
      else extractWithAI e html u)"
  by (simp add: extractArticleContent_def Let_def not_less)

section \<open>The model-based extractor fills in missing fields\<close>

text \<open>
  C9, as amended. When the model's response has a first choice and its content (the text
  \<^verbatim>\<open>{}\<close> when the content is empty or null) parses to a value other than
  \<^verbatim>\<open>null\<close>, the model-based extractor returns a result and does not fail: a title
  that is missing or falsy is replaced by \<open>Untitled Article\<close>, a content that is missing
  or falsy by the placeholder \<open>No content extracted\<close>, and a field that is there is
  returned as it is; an answer that is no object has neither field. The extractor fails
  with what was thrown when the model call fails or the content does not parse, and with
  a \<^verbatim>\<open>TypeError\<close> when the response has no choice or the content parses to
  \<^verbatim>\<open>null\<close>.
\<close>

theorem extractWithAI_defaults:
  "(\<forall>x. chat e system_prompt (user_prompt u (ai_clean html)) = Inl x \<longrightarrow>
      extractWithAI e html u = Inl x) \<and>
   (chat e system_prompt (user_prompt u (ai_clean html)) = Inr [] \<longrightarrow>
      extractWithAI e html u = Inl (lib_throw e TypeError)) \<and>
   (\<forall>answer others x.
      chat e system_prompt (user_prompt u (ai_clean html)) = Inr (answer # others) \<and>
      json_parse e (case answer of None \<Rightarrow> ''{}'' | Some c \<Rightarrow> if c = [] then ''{}'' else c) =
        Inl x \<longrightarrow>
      extractWithAI e html u = Inl x) \<and>
   (\<forall>answer others result.
      chat e system_prompt (user_prompt u (ai_clean html)) = Inr (answer # others) \<and>
      json_parse e (case answer of None \<Rightarrow> ''{}'' | Some c \<Rightarrow> if c = [] then ''{}'' else c) =
        Inr result \<longrightarrow>
      extractWithAI e html u =
        (if result = JNull \<or> result = JUndefined then Inl (lib_throw e TypeError)
         else Inr \<lparr>ex_title =
                     (case result of
                        JObject kvs \<Rightarrow>
                          (case map_of kvs ''title'' of
                             None \<Rightarrow> JString ''Untitled Article''
                           | Some v \<Rightarrow> if truthy v then v else JString ''Untitled Article'')
                      | _ \<Rightarrow> JString ''Untitled Article''),
                   ex_content =
                     (case result of
                        JObject kvs \<Rightarrow>
                          (case map_of kvs ''content'' of
                             None \<Rightarrow> JString ''No content extracted''
                           | Some v \<Rightarrow> if truthy v then v else JString ''No content extracted'')
                      | _ \<Rightarrow> JString ''No content extracted'')\<rparr>))"
proof (intro conjI allI impI)
  fix x
  assume "chat e system_prompt (user_prompt u (ai_clean html)) = Inl x"
  then show "extractWithAI e html u = Inl x"
    by (simp add: extractWithAI_def)
next
  assume "chat e system_prompt (user_prompt u (ai_clean html)) = Inr []"
  then show "extractWithAI e html u = Inl (lib_throw e TypeError)"
    by (simp add: extractWithAI_def)
next
  fix answer others x
  assume "chat e system_prompt (user_prompt u (ai_clean html)) = Inr (answer # others) \<and>
      json_parse e (case answer of None \<Rightarrow> ''{}'' | Some c \<Rightarrow> if c = [] then ''{}'' else c) =
        Inl x"
  then show "extractWithAI e html u = Inl x"
    by (simp add: extractWithAI_def)
next
  fix answer others result
  assume "chat e system_prompt (user_prompt u (ai_clean html)) = Inr (answer # others) \<and>
      json_parse e (case answer of None \<Rightarrow> ''{}'' | Some c \<Rightarrow> if c = [] then ''{}'' else c) =
        Inr result"
  then show "extractWithAI e html u =
        (if result = JNull \<or> result = JUndefined then Inl (lib_throw e TypeError)
         else Inr \<lparr>ex_title =
                     (case result of
                        JObject kvs \<Rightarrow>
                          (case map_of kvs ''title'' of
                             None \<Rightarrow> JString ''Untitled Article''
                           | Some v \<Rightarrow> if truthy v then v else JString ''Untitled Article'')
                      | _ \<Rightarrow> JString ''Untitled Article''),
                   ex_content =
                     (case result of
                        JObject kvs \<Rightarrow>
                          (case map_of kvs ''content'' of
                             None \<Rightarrow> JString ''No content extracted''
                           | Some v \<Rightarrow> if truthy v then v else JString ''No content extracted'')
                      | _ \<Rightarrow> JString ''No content extracted'')\<rparr>)"
    by (cases result) (simp_all add: extractWithAI_def or_else_def split: option.splits)
qed

theorem extractWithAI_defaults_witness:
  "extractWithAI untitled_env ''<p>x</p>'' ''u'' =
     Inr \<lparr>ex_title = JString ''Untitled Article'', ex_content = JString ''Body''\<rparr> \<and>
   extractWithAI plain_env ''<p>x</p>'' ''u'' =
     Inr \<lparr>ex_title = JString ''Untitled Article'',
          ex_content = JString ''No content extracted''\<rparr>"
  using extractWithAI_defaults [where e = untitled_env and u = "''u''" and html = "''<p>x</p>''"]
    extractWithAI_defaults [where e = plain_env and u = "''u''" and html = "''<p>x</p>''"]
  by (simp add: untitled_env_def plain_env_def quiet_env_def)

text \<open>
  The claim C9 as it is written fails: not every response yields a result. When the
  content of the answer is the JSON text \<^verbatim>\<open>null\<close>, it parses to \<^verbatim>\<open>null\<close> and
  reading \<^verbatim>\<open>result.title\<close> throws; when the response has no choice, reading the first
  choice's message throws. In both cases the extractor fails and substitutes nothing.
\<close>

theorem null_answer_fails:
  "json_parse null_env ''null'' = Inr JNull \<and>
   extractWithAI null_env ''<p>x</p>'' ''u'' = Inl (Thrown_Error ''library error'') \<and>
   extractWithAI no_choice_env ''<p>x</p>'' ''u'' = Inl (Thrown_Error ''library error'')"
  by (simp add: extractWithAI_def null_env_def no_choice_env_def quiet_env_def lib_throw_def)

section \<open>The article table\<close>

lemma fold_max_ge: "a \<le> fold max xs (a::nat)"
proof (induction xs arbitrary: a)
  case Nil
  show ?case by simp
next
  case (Cons x xs)
  have "a \<le> max x a" by simp
  also have "\<dots> \<le> fold max xs (max x a)" by (rule Cons.IH)
  finally show ?case by simp
qed

lemma fold_max_member: "x \<in> set xs \<Longrightarrow> x \<le> fold max xs (a::nat)"
proof (induction xs arbitrary: a)
  case Nil
  then show ?case by simp
next
  case (Cons y ys)
  show ?case
  proof (cases "x = y")
    case True
    have "x \<le> max y a" using True by simp
    also have "\<dots> \<le> fold max ys (max y a)" by (rule fold_max_ge)
    finally show ?thesis by simp
  next
    case False
    then have "x \<in> set ys" using Cons.prems by simp
    then show ?thesis using Cons.IH by simp
  qed
qed

lemma new_id_fresh: "map_of rows (new_id rows) = None"
proof -
  have "new_id rows \<notin> fst ` set rows"
  proof
    assume "new_id rows \<in> fst ` set rows"
    then have "new_id rows \<in> set (map fst rows)" by simp
    then have "new_id rows \<le> fold max (map fst rows) 0" by (rule fold_max_member)
    then show False by (simp add: new_id_def)
  qed
  then show ?thesis by (simp add: map_of_eq_None_iff)
qed

lemma map_of_patch_rows:
  "map_of (patch_rows i upd rows) k =
     (if k = i then map_option upd (map_of rows k) else map_of rows k)"
  by (induction rows) (auto simp: patch_rows_def)

lemma db_patch_found:
  "db_get st i = Some a \<Longrightarrow>
   db_patch e i upd st = (Inr (), st\<lparr>articles := patch_rows i upd (articles st)\<rparr>)"
  by (simp add: db_patch_def db_get_def)

lemma db_patch_missing:
  "db_get st i = None \<Longrightarrow> db_patch e i upd st = (Inl (lib_throw e PatchMissing), st)"
  by (simp add: db_patch_def db_get_def)

lemma db_patch_cases:
  "db_patch e i upd st = (Inl (lib_throw e PatchMissing), st) \<and> db_get st i = None \<or>
   db_patch e i upd st = (Inr (), st\<lparr>articles := patch_rows i upd (articles st)\<rparr>) \<and>
   db_get st i \<noteq> None"
  by (cases "db_get st i") (simp_all add: db_patch_found db_patch_missing)

lemma db_get_patched:
  "db_get (st\<lparr>articles := patch_rows i upd (articles st)\<rparr>) k =
     (if k = i then map_option upd (db_get st k) else db_get st k)"
  by (simp add: db_get_def map_of_patch_rows)

lemma find_url_None:
  "find (\<lambda>(i, a). url a = u) rows = None \<longleftrightarrow> u \<notin> set (map (url \<circ> snd) rows)"
  by (induction rows) auto

section \<open>Submitting a URL\<close>

lemma create_existing:
  assumes "u \<in> set (map (url \<circ> snd) (articles st))"
  shows "create u st = (Inl (Thrown_Error ''Article already exists''), st)"
proof -
  have "find (\<lambda>(i, a). url a = u) (articles st) \<noteq> None"
    using assms by (simp add: find_url_None)
  then show ?thesis
    by (auto simp: create_def)
qed

lemma create_fresh:
  assumes "u \<notin> set (map (url \<circ> snd) (articles st))"
  shows "create u st =
        (Inr (new_id (articles st)),
         st\<lparr>articles := articles st @ [(new_id (articles st), fresh_article u)],
            scheduled := scheduled st @ [new_id (articles st)]\<rparr>)"
proof -
  have "find (\<lambda>(i, a). url a = u) (articles st) = None"
    using assms by (simp add: find_url_None)
  then show ?thesis
    by (simp add: create_def db_insert_def Let_def runAfter_def fresh_article_def)
qed

text \<open>
  C5. Submitting a URL that an article of the table already has fails with the error
  \<open>Article already exists\<close> and leaves the whole state as it was: no record is created
  and no record changes. Submitting a URL that no article has appends a record in
  status \<open>Processing\<close> with no title, content, audio or error message, under an id no
  record had, keeps every record there was, and returns the id with the run only
  scheduled: nothing of the pipeline has run when \<open>create\<close> returns.
\<close>

theorem create_duplicate_or_fresh:
  "(u \<in> set (map (url \<circ> snd) (articles st)) \<longrightarrow>
      create u st = (Inl (Thrown_Error ''Article already exists''), st)) \<and>
   (u \<notin> set (map (url \<circ> snd) (articles st)) \<longrightarrow>
      create u st =
        (Inr (new_id (articles st)),
         st\<lparr>articles := articles st @ [(new_id (articles st), fresh_article u)],
            scheduled := scheduled st @ [new_id (articles st)]\<rparr>) \<and>
      db_get st (new_id (articles st)) = None \<and>
      db_get (snd (create u st)) (new_id (articles st)) = Some (fresh_article u) \<and>
      (\<forall>i a. db_get st i = Some a \<longrightarrow> db_get (snd (create u st)) i = Some a))"
proof (intro conjI impI)
  assume "u \<in> set (map (url \<circ> snd) (articles st))"
  then show "create u st = (Inl (Thrown_Error ''Article already exists''), st)"
    by (rule create_existing)
next
  assume fresh: "u \<notin> set (map (url \<circ> snd) (articles st))"
  note created = create_fresh [OF fresh]
  show "create u st =
        (Inr (new_id (articles st)),
         st\<lparr>articles := articles st @ [(new_id (articles st), fresh_article u)],
            scheduled := scheduled st @ [new_id (articles st)]\<rparr>)"
    by (rule created)
  show "db_get st (new_id (articles st)) = None"
    by (simp add: db_get_def new_id_fresh)
  show "db_get (snd (create u st)) (new_id (articles st)) = Some (fresh_article u)"
    by (simp add: created db_get_def new_id_fresh map_add_def)
  show "\<forall>i a. db_get st i = Some a \<longrightarrow> db_get (snd (create u st)) i = Some a"
    by (simp add: created db_get_def map_add_def)
qed

theorem create_duplicate_or_fresh_witness:
  "create ''u'' init_state = (Inr 1, race_s0) \<and>
   create ''u'' race_s0 = (Inl (Thrown_Error ''Article already exists''), race_s0)"
  using create_duplicate_or_fresh [of "''u''" init_state]
    create_duplicate_or_fresh [of "''u''" race_s0]
  by (simp add: init_state_def race_s0_def new_id_def fresh_article_def)

section \<open>Retrying an article\<close>

lemma reset_is_fresh:
  "a\<lparr>status := Processing, errorMessage := None, title := None, content := None,
      audioFileId := None\<rparr> = fresh_article (url a)"
  by (cases a) (simp add: fresh_article_def)

text \<open>
  C6. Retrying an id that no record has fails with the error \<open>Article not found\<close> and
  leaves the state as it was. Retrying an existing article, whatever its status, first
  patches the record (state \<open>st1\<close>: the record has its URL, status \<open>Processing\<close> and no
  title, content, audio or error message; nothing is scheduled yet) and then schedules
  the run; no other record changes.
\<close>

theorem retry_resets:
  "(db_get st i = None \<longrightarrow> retry e i st = (Inl (Thrown_Error ''Article not found''), st)) \<and>
   (\<forall>a. db_get st i = Some a \<longrightarrow>
      retry e i st =
        (Inr i, runAfter i (st\<lparr>articles := patch_rows i (\<lambda>a. fresh_article (url a)) (articles st)\<rparr>)) \<and>
      db_get (st\<lparr>articles := patch_rows i (\<lambda>a. fresh_article (url a)) (articles st)\<rparr>) i =
        Some (fresh_article (url a)) \<and>
      scheduled (snd (retry e i st)) = scheduled st @ [i] \<and>
      db_get (snd (retry e i st)) i = Some (fresh_article (url a)) \<and>
      (\<forall>j. j \<noteq> i \<longrightarrow> db_get (snd (retry e i st)) j = db_get st j))"
proof (intro conjI impI allI)
  assume "db_get st i = None"
  then show "retry e i st = (Inl (Thrown_Error ''Article not found''), st)"
    by (simp add: retry_def)
next
  fix a
  assume found: "db_get st i = Some a"
  let ?st1 = "st\<lparr>articles := patch_rows i (\<lambda>a. fresh_article (url a)) (articles st)\<rparr>"
  show ret: "retry e i st = (Inr i, runAfter i ?st1)"
    by (simp add: retry_def found db_patch_found [OF found] reset_is_fresh)
  show "db_get ?st1 i = Some (fresh_article (url a))"
    by (simp add: db_get_patched found)
  show "scheduled (snd (retry e i st)) = scheduled st @ [i]"
    by (simp add: ret runAfter_def)
  show "db_get (snd (retry e i st)) i = Some (fresh_article (url a))"
    by (simp add: ret runAfter_def db_get_def map_of_patch_rows found [unfolded db_get_def])
  fix j
  assume "j \<noteq> i"
  then show "db_get (snd (retry e i st)) j = db_get st j"
    by (simp add: ret runAfter_def db_get_def map_of_patch_rows)
qed

theorem retry_resets_witness:
  "retry working_env 1 race_s3 =
     (Inr 1, race_s2\<lparr>scheduled := [1, 1, 1], files := [(1, [1, 2, 3])]\<rparr>) \<and>
   retry working_env 2 race_s3 = (Inl (Thrown_Error ''Article not found''), race_s3)"
  using retry_resets [of race_s3 1 working_env] retry_resets [of race_s3 2 working_env]
  by (simp add: race_s3_def race_s2_def db_get_def runAfter_def fresh_article_def patch_rows_def)

section \<open>Failures of a run\<close>

lemma ids_patch_rows: "map fst (patch_rows i upd rows) = map fst rows"
  by (induction rows) (auto simp: patch_rows_def)

lemma db_get_None_iff: "db_get st i = None \<longleftrightarrow> i \<notin> set (map fst (articles st))"
  by (simp add: db_get_def map_of_eq_None_iff)

lemma ids_db_patch: "map fst (articles (snd (db_patch e i upd st))) = map fst (articles st)"
  using db_patch_cases [of e i upd st] by (auto simp: ids_patch_rows)

lemma ids_updateArticle:
  "map fst (articles (snd (updateArticle e i t c st))) = map fst (articles st)"
  by (simp add: updateArticle_def ids_db_patch split: jsval.splits)

lemma articles_storage_store: "articles (snd (storage_store e blob st)) = articles st"
  by (simp add: storage_store_def Let_def split: option.splits)

lemma updateArticle_ids:
  "updateArticle e i t c st = (r, st1) \<Longrightarrow> map fst (articles st1) = map fst (articles st)"
  using ids_updateArticle [of e i t c st] by simp

lemma ids_begin_run: "map fst (articles (snd (begin_run e i st))) = map fst (articles st)"
  by (auto simp: begin_run_def split: option.splits sum.splits prod.splits
      dest: updateArticle_ids)

lemma storage_store_articles: "storage_store e blob st = (r, st1) \<Longrightarrow> articles st1 = articles st"
  using articles_storage_store [of e blob st] by simp

lemma ids_finish_run: "map fst (articles (snd (finish_run e i x st))) = map fst (articles st)"
  by (auto simp: finish_run_def completeArticle_def ids_db_patch
      split: sum.splits prod.splits dest: storage_store_articles)

lemma ids_try_body: "map fst (articles (snd (try_body e i st))) = map fst (articles st)"
proof (cases "begin_run e i st")
  case (Pair r st1)
  have st1: "map fst (articles st1) = map fst (articles st)"
    using ids_begin_run [of e i st] Pair by simp
  show ?thesis
  proof (cases r)
    case (Inl x)
    then show ?thesis using Pair st1 by (simp add: try_body_def)
  next
    case (Inr x)
    then show ?thesis
      using Pair st1 ids_finish_run [of e i x st1] by (simp add: try_body_def)
  qed
qed

lemma markError_found:
  assumes "db_get st i = Some a"
  shows "markError e i msg st =
         (Inr (), st\<lparr>articles := patch_rows i (\<lambda>a. a\<lparr>status := Error, errorMessage := Some msg\<rparr>)
                                     (articles st)\<rparr>)"
  by (simp add: markError_def db_patch_found [OF assms])

text \<open>
  C4, as amended. When the article record exists, a processing run never throws past
  the orchestrator, and whatever the body of the run throws (a failed fetch, a failed
  extraction, a failed synthesis, a failed store) is written to the record: status
  \<open>Error\<close>, and as error message the message of the thrown error, or \<open>Unknown error\<close>
  when what was thrown is not an error.
\<close>

theorem run_failure_recorded:
  assumes "db_get st i = Some a"
  shows "fst (processArticle e i st) = Inr () \<and>
         (\<forall>x st1. try_body e i st = (Inl x, st1) \<longrightarrow>
            (\<exists>a'. db_get (snd (processArticle e i st)) i = Some a' \<and>
                  status a' = Error \<and> errorMessage a' = Some (message_of x)))"
proof (cases "try_body e i st")
  case (Pair r st1)
  have "db_get st1 i \<noteq> None"
    by (metis ids_try_body Pair assms db_get_None_iff option.distinct(1) snd_conv)
  then obtain a1 where a1: "db_get st1 i = Some a1"
    by blast
  show ?thesis
  proof (cases r)
    case (Inr y)
    then show ?thesis
      using Pair by (simp add: processArticle_def catch_run_def)
  next
    case (Inl x)
    have "processArticle e i st =
          (Inr (), st1\<lparr>articles := patch_rows i (\<lambda>a. a\<lparr>status := Error,
                          errorMessage := Some (message_of x)\<rparr>) (articles st1)\<rparr>)"
      using Pair Inl by (simp add: processArticle_def catch_run_def markError_found [OF a1])
    then show ?thesis
      using Pair Inl a1 by (simp add: db_get_patched)
  qed
qed

theorem run_failure_recorded_witness:
  "processArticle quiet_env 1 race_s0 =
     (Inr (), race_s0\<lparr>articles := [(1, (fresh_article ''u'')\<lparr>status := Error,
                                          errorMessage := Some ''Unknown error''\<rparr>)]\<rparr>)"
  using run_failure_recorded [of race_s0 1 "fresh_article ''u''" quiet_env]
  by (simp add: processArticle_def catch_run_def try_body_def begin_run_def markError_def
      db_patch_def patch_rows_def db_get_def race_s0_def quiet_env_def fresh_article_def)

text \<open>
  The claim C4 as it is written fails for the missing record: the run of an id that no
  record has throws \<open>Article not found\<close>, the handler's error write finds no record to
  patch and throws in its turn, and that error leaves the orchestrator. No record is
  written.
\<close>

theorem missing_record_rethrown:
  "processArticle quiet_env 1 init_state = (Inl (Thrown_Error ''library error''), init_state) \<and>
   try_body quiet_env 1 init_state = (Inl (Thrown_Error ''Article not found''), init_state) \<and>
   articles init_state = []"
  by (simp add: processArticle_def catch_run_def try_body_def begin_run_def markError_def
      db_patch_def db_get_def init_state_def quiet_env_def lib_throw_def)

section \<open>A failed fetch\<close>

text \<open>
  C7. When the fetch of the page of a freshly submitted article answers with a
  response that is not a success, the run returns normally and leaves the record with
  status \<open>Error\<close>, the error message \<open>Failed to fetch article: \<close> followed by the status
  text (so the message contains the status text), and still no title, content or audio.
\<close>

theorem fetch_failure_marks_error:
  assumes "u \<notin> set (map (url \<circ> snd) (articles st))"
    and "fetch e u = Inr r" and "\<not> ok r"
  shows "\<exists>i st1 st2.
           create u st = (Inr i, st1) \<and>
           processArticle e i st1 = (Inr (), st2) \<and>
           db_get st2 i =
             Some \<lparr>url = u, title = None, content = None, audioFileId = None, status = Error,
                   errorMessage = Some (''Failed to fetch article: '' @ statusText r)\<rparr> \<and>
           sublist (statusText r) (''Failed to fetch article: '' @ statusText r)"
proof -
  let ?i = "new_id (articles st)"
  let ?st1 = "st\<lparr>articles := articles st @ [(?i, fresh_article u)],
                 scheduled := scheduled st @ [?i]\<rparr>"
  let ?msg = "''Failed to fetch article: '' @ statusText r"
  let ?st2 = "?st1\<lparr>articles := patch_rows ?i (\<lambda>a. a\<lparr>status := Error, errorMessage := Some ?msg\<rparr>)
                                     (articles ?st1)\<rparr>"
  have created: "create u st = (Inr ?i, ?st1)"
    by (rule create_fresh [OF assms(1)])
  have rec: "db_get ?st1 ?i = Some (fresh_article u)"
    by (simp add: db_get_def new_id_fresh map_add_def)
  have body: "try_body e ?i ?st1 = (Inl (Thrown_Error ?msg), ?st1)"
    using assms(2,3) rec by (simp add: try_body_def begin_run_def fresh_article_def)
  have run: "processArticle e ?i ?st1 = (Inr (), ?st2)"
    by (simp add: processArticle_def catch_run_def body markError_found [OF rec])
  have final: "db_get ?st2 ?i =
             Some \<lparr>url = u, title = None, content = None, audioFileId = None, status = Error,
                   errorMessage = Some ?msg\<rparr>"
    by (simp add: db_get_def map_of_patch_rows new_id_fresh map_add_def fresh_article_def)
  have "sublist (statusText r) ?msg"
    unfolding sublist_def by (intro exI [of _ "''Failed to fetch article: ''"] exI [of _ "[]"]) simp
  with created run final show ?thesis
    by blast
qed

theorem fetch_failure_marks_error_witness:
  "create ''u'' init_state = (Inr 1, race_s0) \<and>
   processArticle not_found_env 1 race_s0 =
     (Inr (), race_s0\<lparr>articles := [(1, (fresh_article ''u'')\<lparr>status := Error,
                         errorMessage := Some ''Failed to fetch article: Not Found''\<rparr>)]\<rparr>)"
  using fetch_failure_marks_error [of "''u''" init_state not_found_env
      "\<lparr>ok = False, statusText = ''Not Found'', text_body = Inr []\<rparr>"]
  by (simp add: create_def db_insert_def runAfter_def new_id_def
      processArticle_def catch_run_def try_body_def begin_run_def markError_def
      db_patch_def patch_rows_def db_get_def race_s0_def init_state_def not_found_env_def
      quiet_env_def fresh_article_def)

section \<open>The record invariant under the operations\<close>

lemma invariant_iff: "invariant st \<longleftrightarrow> (\<forall>i a. (i, a) \<in> set (articles st) \<longrightarrow> article_ok a)"
  by (auto simp: invariant_def list_all_iff)

lemma in_patch_rows:
  "(j, b) \<in> set (patch_rows i upd rows) \<Longrightarrow>
   \<exists>a. (j, a) \<in> set rows \<and> b = (if j = i then upd a else a)"
  by (auto simp: patch_rows_def split: if_splits)

lemma invariant_patch_rows:
  assumes "invariant st"
    and "\<And>a. (i, a) \<in> set (articles st) \<Longrightarrow> article_ok a \<Longrightarrow> article_ok (upd a)"
  shows "invariant (st\<lparr>articles := patch_rows i upd (articles st)\<rparr>)"
  unfolding invariant_iff
proof (intro allI impI)
  fix j b
  assume "(j, b) \<in> set (articles (st\<lparr>articles := patch_rows i upd (articles st)\<rparr>))"
  then have "(j, b) \<in> set (patch_rows i upd (articles st))"
    by simp
  then obtain a where a: "(j, a) \<in> set (articles st)" "b = (if j = i then upd a else a)"
    using in_patch_rows by blast
  have "article_ok a"
    using a(1) assms(1) by (auto simp: invariant_iff)
  then show "article_ok b"
    using a assms(2) by auto
qed

lemma invariant_db_patch:
  assumes "invariant st"
    and "\<And>a. (i, a) \<in> set (articles st) \<Longrightarrow> article_ok a \<Longrightarrow> article_ok (upd a)"
  shows "invariant (snd (db_patch e i upd st))"
  using db_patch_cases [of e i upd st] assms(1) invariant_patch_rows [OF assms]
  by auto

lemma invariant_create: "invariant st \<Longrightarrow> invariant (snd (create u st))"
proof (cases "u \<in> set (map (url \<circ> snd) (articles st))")
  case True
  assume "invariant st"
  then show ?thesis
    by (simp add: create_existing [OF True])
next
  case False
  assume "invariant st"
  then show ?thesis
    by (simp add: create_fresh [OF False] invariant_def article_ok_def fresh_article_def)
qed

lemma invariant_retry: "invariant st \<Longrightarrow> invariant (snd (retry e i st))"
proof (cases "db_get st i")
  case None
  assume "invariant st"
  then show ?thesis
    by (simp add: retry_def None)
next
  case (Some a)
  assume inv: "invariant st"
  have "invariant (snd (db_patch e i (\<lambda>a. fresh_article (url a)) st))"
    by (rule invariant_db_patch [OF inv]) (simp add: article_ok_def fresh_article_def)
  then show ?thesis
    by (simp add: retry_def Some db_patch_found [OF Some] reset_is_fresh runAfter_def
        invariant_def)
qed

lemma invariant_updateArticle: "invariant st \<Longrightarrow> invariant (snd (updateArticle e i t c st))"
proof -
  assume inv: "invariant st"
  have "invariant (snd (db_patch e i (\<lambda>a. a\<lparr>title := Some t', content := Some c'\<rparr>) st))"
    for t' c'
    by (rule invariant_db_patch [OF inv]) (simp add: article_ok_def)
  then show ?thesis
    using inv by (simp add: updateArticle_def split: jsval.splits)
qed

lemma invariant_markError: "invariant st \<Longrightarrow> invariant (snd (markError e i msg st))"
  unfolding markError_def
  by (rule invariant_db_patch) (simp_all add: article_ok_def)

lemma invariant_completeArticle:
  assumes "invariant st"
    and "\<And>a. (i, a) \<in> set (articles st) \<Longrightarrow> title a \<noteq> None \<and> content a \<noteq> None"
  shows "invariant (snd (completeArticle e i f st))"
  unfolding completeArticle_def
  by (rule invariant_db_patch [OF assms(1)]) (use assms(2) in \<open>auto simp: article_ok_def\<close>)

text \<open>What a run has written when its first part returns.\<close>

lemma begin_run_failed: "begin_run e i st = (Inl x, st1) \<Longrightarrow> st1 = st"
  by (auto simp: begin_run_def updateArticle_def db_patch_def
      split: option.splits sum.splits prod.splits if_splits jsval.splits)

lemma begin_run_written:
  assumes "begin_run e i st = (Inr x, st1)"
  shows "\<exists>t c. st1 = st\<lparr>articles := patch_rows i (\<lambda>a. a\<lparr>title := Some t, content := Some c\<rparr>)
                                      (articles st)\<rparr>"
  using assms
  by (auto simp: begin_run_def updateArticle_def db_patch_def
      split: option.splits sum.splits prod.splits if_splits jsval.splits)

lemma invariant_finish_run:
  assumes "invariant st"
    and "\<And>a. (i, a) \<in> set (articles st) \<Longrightarrow> title a \<noteq> None \<and> content a \<noteq> None"
  shows "invariant (snd (finish_run e i x st))"
proof -
  have stored: "invariant st1 \<and>
      (\<forall>a. (i, a) \<in> set (articles st1) \<longrightarrow> title a \<noteq> None \<and> content a \<noteq> None)"
    if "storage_store e blob st = (r, st1)" for blob r st1
    using storage_store_articles [OF that] assms by (simp add: invariant_def)
  show ?thesis
    using assms(1) stored
    by (auto simp: finish_run_def split: sum.splits prod.splits
        intro!: invariant_completeArticle)
qed

lemma invariant_processArticle:
  assumes "invariant st"
  shows "invariant (snd (processArticle e i st))"
proof (cases "begin_run e i st")
  case (Pair r st1)
  show ?thesis
  proof (cases r)
    case (Inl x)
    then have "st1 = st"
      using Pair begin_run_failed by blast
    then show ?thesis
      using Pair Inl assms
      by (simp add: processArticle_def try_body_def catch_run_def invariant_markError)
  next
    case (Inr x)
    then obtain t c where st1:
      "st1 = st\<lparr>articles := patch_rows i (\<lambda>a. a\<lparr>title := Some t, content := Some c\<rparr>)
                               (articles st)\<rparr>"
      using Pair begin_run_written by blast
    have inv1: "invariant st1"
      unfolding st1 by (rule invariant_patch_rows [OF assms]) (simp add: article_ok_def)
    have text1: "title a \<noteq> None \<and> content a \<noteq> None" if "(i, a) \<in> set (articles st1)" for a
    proof -
      have "(i, a) \<in> set (patch_rows i (\<lambda>a. a\<lparr>title := Some t, content := Some c\<rparr>) (articles st))"
        using that by (simp add: st1)
      then obtain a0 where "a = a0\<lparr>title := Some t, content := Some c\<rparr>"
        using in_patch_rows by fastforce
      then show ?thesis
        by simp
    qed
    have inv2: "invariant (snd (finish_run e i x st1))"
      by (rule invariant_finish_run [OF inv1 text1])
    obtain r2 st2 where fin: "finish_run e i x st1 = (r2, st2)"
      by (cases "finish_run e i x st1")
    have "invariant (snd (catch_run e i (r2, st2)))"
      using inv2 fin by (cases r2) (simp_all add: catch_run_def invariant_markError)
    then show ?thesis
      using Pair Inr fin by (simp add: processArticle_def try_body_def)
  qed
qed

lemma heuristic_on_empty:
  "extractWithTraditionalMethods [] = \<lparr>ex_title = ''Untitled Article'', ex_content = []\<rparr>"
  by (simp add: extractWithTraditionalMethods_def remove_blocks_def extract_title_def
      extract_content_def contentSelectors_def trim_def search_eval regex_eval pattern_defs)

text \<open>
  C3, as amended. Every record's status is one of the three, and from a state in which
  every record satisfies the presence conditions (audio absent while processing; title,
  content and audio present when completed; error message present on error), the state
  after a submission, after a retry, after the write of title and content and after an
  error write satisfies them again. The completion write keeps them when the title and
  the content of the record it completes are present, and so does a whole run that no
  other operation interleaves.
\<close>

theorem invariant_preserved:
  assumes "invariant st"
  shows "invariant (snd (create u st)) \<and>
         invariant (snd (retry e i st)) \<and>
         invariant (snd (updateArticle e i t c st)) \<and>
         invariant (snd (markError e i msg st)) \<and>
         ((\<forall>a. (i, a) \<in> set (articles st) \<longrightarrow> title a \<noteq> None \<and> content a \<noteq> None) \<longrightarrow>
            invariant (snd (completeArticle e i f st))) \<and>
         invariant (snd (processArticle e i st))"
  using assms
  by (simp add: invariant_create invariant_retry invariant_updateArticle invariant_markError
      invariant_completeArticle invariant_processArticle)

theorem invariant_preserved_witness:
  "invariant race_s1 \<and>
   completeArticle working_env 1 1 race_s1 =
     (Inr (), race_s1\<lparr>articles := [(1, (fresh_article ''u'')\<lparr>title := Some ''Model title'',
         content := Some ''Model content'', audioFileId := Some 1, status := Completed\<rparr>)]\<rparr>) \<and>
   invariant (snd (completeArticle working_env 1 1 race_s1)) \<and>
   invariant (snd (processArticle working_env 1 race_s1)) \<and>
   invariant (snd (retry working_env 1 race_s1))"
  using invariant_preserved [of race_s1 "''v''" working_env 1 JNull JNull "''m''" 1]
  by (simp add: invariant_def article_ok_def race_s1_def fresh_article_def completeArticle_def
      db_patch_def patch_rows_def)

text \<open>
  The claim C3 as it is written fails when a retry overtakes a run. The article is
  submitted (\<open>race_s0\<close>); its run fetches, extracts and writes title and content
  (\<open>race_s1\<close>); before the run goes on, the article is retried, which clears the record
  (\<open>race_s2\<close>); the first run then synthesizes, stores the audio and writes the
  completion (\<open>race_s3\<close>): the record is completed with no title and no content.
\<close>

theorem retry_overtakes_run:
  "create ''u'' init_state = (Inr 1, race_s0) \<and> invariant race_s0 \<and>
   begin_run working_env 1 race_s0 = (Inr model_answer, race_s1) \<and> invariant race_s1 \<and>
   retry working_env 1 race_s1 = (Inr 1, race_s2) \<and> invariant race_s2 \<and>
   catch_run working_env 1 (finish_run working_env 1 model_answer race_s2) = (Inr (), race_s3) \<and>
   \<not> invariant race_s3"
proof -
  have ai: "extractArticleContent working_env [] ''u'' = Inr model_answer"
    by (simp add: extractArticleContent_def heuristic_on_empty extractWithAI_def
        working_env_def quiet_env_def or_else_def model_answer_def)
  have audio: "generateAudio working_env ''Model content'' = Inr [1, 2, 3]"
    by (simp add: generateAudio_def read_all_done combine_concat working_env_def quiet_env_def)
  have env: "fetch working_env ''u'' = Inr \<lparr>ok = True, statusText = ''OK'', text_body = Inr []\<rparr>"
    "store_fault working_env [1, 2, 3] = None"
    by (simp_all add: working_env_def quiet_env_def)
  have "create ''u'' init_state = (Inr 1, race_s0)"
    by (simp add: create_def db_insert_def runAfter_def new_id_def init_state_def race_s0_def
        fresh_article_def)
  moreover have "begin_run working_env 1 race_s0 = (Inr model_answer, race_s1)"
    by (simp add: begin_run_def db_get_def race_s0_def fresh_article_def env ai
        updateArticle_def model_answer_def db_patch_def patch_rows_def race_s1_def)
  moreover have "retry working_env 1 race_s1 = (Inr 1, race_s2)"
    by (simp add: retry_def db_get_def db_patch_def patch_rows_def runAfter_def race_s1_def
        race_s2_def fresh_article_def)
  moreover have "catch_run working_env 1 (finish_run working_env 1 model_answer race_s2) =
      (Inr (), race_s3)"
    by (simp add: catch_run_def finish_run_def model_answer_def audio storage_store_def env
        race_s2_def new_id_def completeArticle_def db_patch_def patch_rows_def race_s3_def
        fresh_article_def)
  moreover have "invariant race_s0 \<and> invariant race_s1 \<and> invariant race_s2 \<and> \<not> invariant race_s3"
    by (simp add: invariant_def article_ok_def race_s0_def race_s1_def race_s2_def race_s3_def
        fresh_article_def)
  ultimately show ?thesis
    by simp
qed

section \<open>A run that succeeds\<close>

text \<open>
  When the body of a run returns without an error, the orchestrator returns normally and
  the record is completed: its title and content are strings that are not empty, and its
  audio reference names a stored blob, the one the synthesizer returned for the content.
\<close>

lemma extractWithAI_truthy:
  "extractWithAI e html u = Inr x \<Longrightarrow> truthy (ex_title x) \<and> truthy (ex_content x)"
  by (auto simp: extractWithAI_def or_else_def split: sum.splits list.splits)

lemma extractArticleContent_truthy:
  assumes "extractArticleContent e html u = Inr x"
  shows "truthy (ex_title x) \<and> truthy (ex_content x)"
proof (cases "ex_title (extractWithTraditionalMethods html) = [] \<or>
              length (ex_content (extractWithTraditionalMethods html)) < 200")
  case True
  then have "extractWithAI e html u = Inr x"
    using assms by (simp add: extractArticleContent_def Let_def)
  then show ?thesis
    by (rule extractWithAI_truthy)
next
  case False
  then have "x = as_jsval (extractWithTraditionalMethods html)"
    using assms by (simp add: extractArticleContent_def Let_def)
  then show ?thesis
    using False by (auto simp: as_jsval_def)
qed

lemma begin_run_success:
  assumes "begin_run e i st = (Inr x, st1)"
  shows "\<exists>a t c. db_get st i = Some a \<and> ex_title x = JString t \<and> ex_content x = JString c \<and>
           t \<noteq> [] \<and> c \<noteq> [] \<and>
           st1 = st\<lparr>articles := patch_rows i (\<lambda>a. a\<lparr>title := Some t, content := Some c\<rparr>)
                                    (articles st)\<rparr>"
proof -
  from assms obtain a html where a: "db_get st i = Some a"
    and ex: "extractArticleContent e html (url a) = Inr x"
    and up: "updateArticle e i (ex_title x) (ex_content x) st = (Inr (), st1)"
    by (auto simp: begin_run_def split: option.splits sum.splits prod.splits if_splits)
  from up obtain t c where tc: "ex_title x = JString t" "ex_content x = JString c"
    and st1: "db_patch e i (\<lambda>a. a\<lparr>title := Some t, content := Some c\<rparr>) st = (Inr (), st1)"
    by (auto simp: updateArticle_def split: jsval.splits)
  have "t \<noteq> [] \<and> c \<noteq> []"
    using extractArticleContent_truthy [OF ex] tc by simp
  moreover have "st1 = st\<lparr>articles := patch_rows i (\<lambda>a. a\<lparr>title := Some t, content := Some c\<rparr>)
                                    (articles st)\<rparr>"
    using st1 db_patch_found [OF a, of e "\<lambda>a. a\<lparr>title := Some t, content := Some c\<rparr>"] by simp
  ultimately show ?thesis
    using a tc by blast
qed

lemma finish_run_success:
  assumes "finish_run e i x st1 = (Inr (), st2)"
  shows "\<exists>txt blob. ex_content x = JString txt \<and> generateAudio e txt = Inr blob \<and>
           db_get st1 i \<noteq> None \<and>
           st2 = st1\<lparr>files := files st1 @ [(new_id (files st1), blob)],
                     articles := patch_rows i (\<lambda>a. a\<lparr>status := Completed,
                                   audioFileId := Some (new_id (files st1))\<rparr>) (articles st1)\<rparr>"
  using assms
  by (auto simp: finish_run_def storage_store_def Let_def completeArticle_def db_patch_def
      db_get_def split: sum.splits prod.splits option.splits jsval.splits)

lemma successful_run_completes:
  assumes "try_body e i st = (Inr (), st')"
  shows "processArticle e i st = (Inr (), st') \<and>
         (\<exists>a t c f blob.
            db_get st' i = Some a \<and> status a = Completed \<and>
            title a = Some t \<and> t \<noteq> [] \<and> content a = Some c \<and> c \<noteq> [] \<and>
            audioFileId a = Some f \<and> map_of (files st') f = Some blob \<and>
            generateAudio e c = Inr blob)"
proof -
  from assms obtain x st1 where b: "begin_run e i st = (Inr x, st1)"
    and f: "finish_run e i x st1 = (Inr (), st')"
    by (auto simp: try_body_def split: sum.splits prod.splits)
  from begin_run_success [OF b] obtain a t c where a: "db_get st i = Some a"
    and tc: "ex_title x = JString t" "ex_content x = JString c" "t \<noteq> []" "c \<noteq> []"
    and st1: "st1 = st\<lparr>articles := patch_rows i (\<lambda>a. a\<lparr>title := Some t, content := Some c\<rparr>)
                                    (articles st)\<rparr>"
    by blast
  from finish_run_success [OF f] tc obtain blob where audio: "generateAudio e c = Inr blob"
    and st': "st' = st1\<lparr>files := files st1 @ [(new_id (files st1), blob)],
                     articles := patch_rows i (\<lambda>a. a\<lparr>status := Completed,
                                   audioFileId := Some (new_id (files st1))\<rparr>) (articles st1)\<rparr>"
    by auto
  have rec: "db_get st' i = Some (a\<lparr>title := Some t, content := Some c, status := Completed,
                                  audioFileId := Some (new_id (files st1))\<rparr>)"
    using a by (simp add: st' st1 db_get_def map_of_patch_rows)
  have stored: "map_of (files st') (new_id (files st1)) = Some blob"
    by (simp add: st' new_id_fresh map_add_def)
  have "processArticle e i st = (Inr (), st')"
    using assms by (simp add: processArticle_def catch_run_def)
  then show ?thesis
    using rec stored tc audio by simp
qed

lemma successful_run_completes_example:
  "try_body working_env 1 race_s0 =
     (Inr (), \<lparr>articles = [(1, \<lparr>url = ''u'', title = Some ''Model title'',
                                  content = Some ''Model content'', audioFileId = Some 1,
                                  status = Completed, errorMessage = None\<rparr>)],
               scheduled = [1], files = [(1, [1, 2, 3])]\<rparr>) \<and>
   fst (processArticle working_env 1 race_s0) = Inr ()"
proof -
  have ai: "extractArticleContent working_env [] ''u'' = Inr model_answer"
    by (simp add: extractArticleContent_def heuristic_on_empty extractWithAI_def
        working_env_def quiet_env_def or_else_def model_answer_def)
  have audio: "generateAudio working_env ''Model content'' = Inr [1, 2, 3]"
    by (simp add: generateAudio_def read_all_done combine_concat working_env_def quiet_env_def)
  have env: "fetch working_env ''u'' = Inr \<lparr>ok = True, statusText = ''OK'', text_body = Inr []\<rparr>"
    "store_fault working_env [1, 2, 3] = None"
    by (simp_all add: working_env_def quiet_env_def)
  have run: "try_body working_env 1 race_s0 =
     (Inr (), \<lparr>articles = [(1, \<lparr>url = ''u'', title = Some ''Model title'',
                                  content = Some ''Model content'', audioFileId = Some 1,
                                  status = Completed, errorMessage = None\<rparr>)],
               scheduled = [1], files = [(1, [1, 2, 3])]\<rparr>)"
    by (simp add: try_body_def begin_run_def finish_run_def db_get_def race_s0_def
        fresh_article_def env ai updateArticle_def model_answer_def db_patch_def patch_rows_def
        audio storage_store_def new_id_def completeArticle_def)
  show ?thesis
    using successful_run_completes [OF run] run by simp
qed

end
